theory Spec2Isabelle
  imports Complex_Main
begin

section \<open>Numbers, faults and arrays\<close>

text \<open>
  The analysers compute on C++ \<open>float\<close>, IEEE binary32. A finite \<open>float\<close> is modelled by
  the real number it denotes; a result that is an infinity or a NaN is the outcome
  \<open>FloatNotFinite\<close>, and a floating point division by zero is never replaced by HOL's
  \<open>x / 0 = 0\<close>.

  \<open>GetRootMeanSquare\<close> is modelled in binary32: every operation is the real operation
  followed by \<open>round32\<close>, the rounding to the nearest \<open>float\<close> (ties to even), which
  overflows to an infinity and underflows to the subnormal numbers and to zero. The beat
  detector is modelled in exact arithmetic, without the rounding steps.

  The integer types (\<open>int32\<close>, \<open>int64\<close>, \<open>uint32\<close>) are modelled by \<open>int\<close>. The
  conversions to \<open>uint32\<close> and the one \<open>int32\<close> product that can leave its range (the
  sample offset of a frame) wrap around (\<open>to_uint32\<close>, \<open>to_int32\<close>); the other integer
  operations stay within sizes of arrays that exist.
  C++ integer division truncates towards zero (\<open>tdiv\<close>, \<open>tmod\<close>); on an integer
  division by zero the program stops (\<open>IntDivideByZero\<close>).

  A \<open>TArray\<close> is a list. Indexing checks the range; outside of it the program stops
  (\<open>IndexOutOfRange\<close>).
\<close>

type_synonym float = real

datatype fault = IndexOutOfRange | IntDivideByZero | FloatNotFinite | NullDereference

definition Num :: "'a list \<Rightarrow> int" where
  "Num xs = int (length xs)"

definition get_elem :: "'a list \<Rightarrow> int \<Rightarrow> fault + 'a" where
  "get_elem xs i = (if 0 \<le> i \<and> i < Num xs then Inr (xs ! nat i) else Inl IndexOutOfRange)"

definition set_elem :: "'a list \<Rightarrow> int \<Rightarrow> 'a \<Rightarrow> fault + 'a list" where
  "set_elem xs i v = (if 0 \<le> i \<and> i < Num xs then Inr (xs[nat i := v]) else Inl IndexOutOfRange)"

text \<open>
  \<open>TArray::SetNum\<close>: the array gets the new length; the elements below the old and the
  new length stay as they are, added elements are value-initialised (\<open>d\<close>: \<open>0\<close> for a
  \<open>float\<close>, the empty array for an array).
\<close>

definition SetNum :: "'a list \<Rightarrow> int \<Rightarrow> 'a \<Rightarrow> 'a list" where
  "SetNum xs n d = take (nat n) xs @ replicate (nat n - length xs) d"

definition tdiv :: "int \<Rightarrow> int \<Rightarrow> int" where
  "tdiv a b = (if (a < 0) = (b < 0) then \<bar>a\<bar> div \<bar>b\<bar> else - (\<bar>a\<bar> div \<bar>b\<bar>))"

definition tmod :: "int \<Rightarrow> int \<Rightarrow> int" where
  "tmod a b = a - b * tdiv a b"

definition fdiv :: "float \<Rightarrow> float \<Rightarrow> fault + float" where
  "fdiv x y = (if y = 0 then Inl FloatNotFinite else Inr (x / y))"

definition andThen :: "fault + 'a \<Rightarrow> ('a \<Rightarrow> fault + 'b) \<Rightarrow> fault + 'b" where
  "andThen m f = (case m of Inl e \<Rightarrow> Inl e | Inr x \<Rightarrow> f x)"

section \<open>Time domain features (\<open>UCoreTimeDomainFeatures\<close>)\<close>

subsection \<open>Rounding to binary32\<close>

text \<open>
  The finite binary32 numbers are the multiples \<open>m * 2 ^ j / 2 ^ 149\<close> with
  \<open>\<bar>m\<bar> < 2 ^ 24\<close> below \<open>2 ^ 128\<close>. \<open>ulp32 x\<close> is the distance of two neighbours of them
  at \<open>x\<close>: \<open>2 ^ (e - 23)\<close> for \<open>2 ^ e \<le> \<bar>x\<bar> < 2 ^ (e + 1)\<close>, and \<open>1 / 2 ^ 149\<close> below
  \<open>2 ^ (-125)\<close>, where the subnormal numbers and the first normal ones lie.
  \<open>bit_length n\<close> is the number of binary digits of \<open>n\<close>.
\<close>

fun bit_length :: "nat \<Rightarrow> nat" where
  "bit_length n = (if n = 0 then 0 else Suc (bit_length (n div 2)))"

declare bit_length.simps [simp del]

definition ulp32 :: "real \<Rightarrow> real" where
  "ulp32 x = 2 ^ (bit_length (nat \<lfloor>\<bar>x\<bar> * 2 ^ 149\<rfloor>) - 24) / 2 ^ 149"

definition nearest_even :: "real \<Rightarrow> int" where
  "nearest_even q =
     (let f = \<lfloor>q\<rfloor>; d = q - of_int f
      in if d < 1 / 2 then f else if d > 1 / 2 then f + 1 else if even f then f else f + 1)"

definition round32 :: "real \<Rightarrow> fault + float" where
  "round32 x =
     (let r = of_int (nearest_even (x / ulp32 x)) * ulp32 x
      in if 2 ^ 128 \<le> \<bar>r\<bar> then Inl FloatNotFinite else Inr r)"

subsection \<open>The three features\<close>

text \<open>
  \<open>GetRootMeanSquare\<close>: the loop over the samples, \<open>Sum += Pow(Frame, 2)\<close>, then
  \<open>Sqrt(Sum / static_cast<float>(Num))\<close>; \<open>SumValue\<close> is the local \<open>Sum\<close>. The square,
  the sum, the conversion of the length, the quotient and the square root are each
  rounded to binary32. Once a step is an infinity or a NaN, so is the result: the squares
  are not negative, and the length is not zero then.
\<close>

fun sum_squares :: "float list \<Rightarrow> float \<Rightarrow> fault + float" where
  "sum_squares [] SumValue = Inr SumValue"
| "sum_squares (Frame # rest) SumValue =
     (case round32 (Frame ^ 2) of Inl e \<Rightarrow> Inl e | Inr square \<Rightarrow>
      case round32 (SumValue + square) of Inl e \<Rightarrow> Inl e | Inr SumValue' \<Rightarrow>
      sum_squares rest SumValue')"

definition GetRootMeanSquare :: "float list \<Rightarrow> fault + float" where
  "GetRootMeanSquare AudioFrame =
     (case sum_squares AudioFrame 0 of Inl e \<Rightarrow> Inl e | Inr SumValue \<Rightarrow>
      case round32 (real_of_int (Num AudioFrame)) of Inl e \<Rightarrow> Inl e | Inr count \<Rightarrow>
      case fdiv SumValue count of Inl e \<Rightarrow> Inl e | Inr ratio \<Rightarrow>
      case round32 ratio of Inl e \<Rightarrow> Inl e | Inr mean \<Rightarrow>
      round32 (sqrt mean))"

text \<open>
  \<open>GetPeakEnergy\<close>: \<open>Peak\<close> starts at \<open>-10000\<close>; the absolute value and the
  comparison do not round.
\<close>

fun peak_loop :: "float list \<Rightarrow> float \<Rightarrow> float" where
  "peak_loop [] Peak = Peak"
| "peak_loop (Frame # rest) Peak =
     (let AbsSample = \<bar>Frame\<bar>
      in peak_loop rest (if AbsSample > Peak then AbsSample else Peak))"

definition GetPeakEnergy :: "float list \<Rightarrow> float" where
  "GetPeakEnergy AudioFrame = peak_loop AudioFrame (- 10000)"

text \<open>
  \<open>GetZeroCrossingRate\<close>: \<open>FrameIndex\<close> runs from \<open>1\<close> while it is below \<open>Num\<close>, so
  both reads are in range.
\<close>

function zero_crossing_loop :: "float list \<Rightarrow> nat \<Rightarrow> float \<Rightarrow> float" where
  "zero_crossing_loop AudioFrame FrameIndex ZeroCrossingRateValue =
     (if FrameIndex < length AudioFrame then
        (let bIsCurrentPositive = (AudioFrame ! FrameIndex > 0);
             bIsPreviousPositive = (AudioFrame ! (FrameIndex - 1) > 0)
         in zero_crossing_loop AudioFrame (FrameIndex + 1)
              (if bIsCurrentPositive \<noteq> bIsPreviousPositive
               then ZeroCrossingRateValue + 1 else ZeroCrossingRateValue))
      else ZeroCrossingRateValue)"
  by pat_completeness auto
termination
  by (relation "measure (\<lambda>(AudioFrame, FrameIndex, _). length AudioFrame - FrameIndex)") auto

declare zero_crossing_loop.simps [simp del]

definition GetZeroCrossingRate :: "float list \<Rightarrow> float" where
  "GetZeroCrossingRate AudioFrame = zero_crossing_loop AudioFrame 1 0"

section \<open>Beat detection (\<open>UBeatDetection\<close>)\<close>

record BeatDetection =
  HistoryPosition :: int
  FFTSubbandsSize :: int
  EnergyHistorySize :: int
  FFTSubbands :: "float list"
  FFTAverageEnergy :: "float list"
  FFTVariance :: "float list"
  FFTBeatValues :: "float list"
  EnergyHistory :: "float list list"

text \<open>The constructor: the three integers are \<open>0\<close>, the arrays are empty.\<close>

definition NewBeatDetection :: BeatDetection where
  "NewBeatDetection =
     \<lparr>HistoryPosition = 0, FFTSubbandsSize = 0, EnergyHistorySize = 0,
      FFTSubbands = [], FFTAverageEnergy = [], FFTVariance = [], FFTBeatValues = [],
      EnergyHistory = []\<rparr>"

subsection \<open>Resizing\<close>

text \<open>
  The loop of \<open>UpdateEnergyHistorySize\<close>: \<open>EnergyHistory[SubbandIndex].SetNum(H)\<close> for
  every \<open>SubbandIndex\<close> below \<open>FFTSubbandsSize\<close> (here \<open>S\<close>).
\<close>

function resize_history_loop ::
  "float list list \<Rightarrow> int \<Rightarrow> int \<Rightarrow> int \<Rightarrow> fault + float list list" where
  "resize_history_loop history SubbandIndex S H =
     (if SubbandIndex < S then
        (case get_elem history SubbandIndex of
           Inl e \<Rightarrow> Inl e
         | Inr row \<Rightarrow>
             (case set_elem history SubbandIndex (SetNum row H 0) of
                Inl e \<Rightarrow> Inl e
              | Inr history' \<Rightarrow> resize_history_loop history' (SubbandIndex + 1) S H))
      else Inr history)"
  by pat_completeness auto
termination
  by (relation "measure (\<lambda>(history, SubbandIndex, S, H). nat (S - SubbandIndex))") auto

declare resize_history_loop.simps [simp del]

definition UpdateEnergyHistorySize :: "BeatDetection \<Rightarrow> int \<Rightarrow> fault + BeatDetection" where
  "UpdateEnergyHistorySize st InEnergyHistorySize =
     (if InEnergyHistorySize \<le> 0 then Inr st
      else
        (case resize_history_loop (EnergyHistory st) 0 (FFTSubbandsSize st)
                InEnergyHistorySize of
           Inl e \<Rightarrow> Inl e
         | Inr history \<Rightarrow>
             Inr (st\<lparr>EnergyHistorySize := InEnergyHistorySize, EnergyHistory := history\<rparr>)))"

definition UpdateFFTSubbandsSize :: "BeatDetection \<Rightarrow> int \<Rightarrow> fault + BeatDetection" where
  "UpdateFFTSubbandsSize st InFFTSubbandsSize =
     (if InFFTSubbandsSize \<le> 0 then Inr st
      else
        UpdateEnergyHistorySize
          (st\<lparr>FFTSubbandsSize := InFFTSubbandsSize,
              FFTSubbands := SetNum (FFTSubbands st) InFFTSubbandsSize 0,
              FFTAverageEnergy := SetNum (FFTAverageEnergy st) InFFTSubbandsSize 0,
              FFTVariance := SetNum (FFTVariance st) InFFTSubbandsSize 0,
              FFTBeatValues := SetNum (FFTBeatValues st) InFFTSubbandsSize 0,
              EnergyHistory := SetNum (EnergyHistory st) InFFTSubbandsSize []\<rparr>)
          (EnergyHistorySize st))"

text \<open>
  \<open>CreateBeatDetection\<close> stores the history size as it comes and then calls
  \<open>UpdateFFTSubbandsSize\<close>.
\<close>

definition CreateBeatDetection :: "int \<Rightarrow> int \<Rightarrow> fault + BeatDetection" where
  "CreateBeatDetection InFFTSubbandsSize InEnergyHistorySize =
     UpdateFFTSubbandsSize
       (NewBeatDetection\<lparr>EnergyHistorySize := InEnergyHistorySize\<rparr>) InFFTSubbandsSize"

subsection \<open>\<open>UpdateFFT\<close>\<close>

text \<open>
  The two inner loops of the sub-band calculation. \<open>offset\<close> is
  \<open>SubbandIndex * (MagnitudeSpectrumSize / FFTSubbandsSize)\<close>, \<open>bins\<close> is
  \<open>MagnitudeSpectrumSize / FFTSubbandsSize\<close>, and \<open>acc\<close> is the array element that the
  loop adds to (\<open>FFTSubbands[SubbandIndex]\<close>, \<open>FFTVariance[SubbandIndex]\<close>), whose index
  the caller has checked.
\<close>

function subband_sum_loop ::
  "float list \<Rightarrow> int \<Rightarrow> int \<Rightarrow> int \<Rightarrow> float \<Rightarrow> fault + float" where
  "subband_sum_loop MagnitudeSpectrum offset bins SubbandInternalIndex acc =
     (if SubbandInternalIndex < bins then
        (case get_elem MagnitudeSpectrum (offset + SubbandInternalIndex) of
           Inl e \<Rightarrow> Inl e
         | Inr m \<Rightarrow>
             subband_sum_loop MagnitudeSpectrum offset bins (SubbandInternalIndex + 1)
               (acc + m))
      else Inr acc)"
  by pat_completeness auto
termination
  by (relation "measure (\<lambda>(M, offset, bins, i, acc). nat (bins - i))") auto

declare subband_sum_loop.simps [simp del]

function subband_variance_loop ::
  "float list \<Rightarrow> int \<Rightarrow> int \<Rightarrow> float \<Rightarrow> int \<Rightarrow> float \<Rightarrow> fault + float" where
  "subband_variance_loop MagnitudeSpectrum offset bins average SubbandInternalIndex acc =
     (if SubbandInternalIndex < bins then
        (case get_elem MagnitudeSpectrum (offset + SubbandInternalIndex) of
           Inl e \<Rightarrow> Inl e
         | Inr m \<Rightarrow>
             subband_variance_loop MagnitudeSpectrum offset bins average
               (SubbandInternalIndex + 1) (acc + (m - average) ^ 2))
      else Inr acc)"
  by pat_completeness auto
termination
  by (relation "measure (\<lambda>(M, offset, bins, average, i, acc). nat (bins - i))") auto

declare subband_variance_loop.simps [simp del]

text \<open>
  One round of the first outer loop, on the three arrays it writes. \<open>S\<close> is
  \<open>FFTSubbandsSize\<close>, which \<open>UpdateFFT\<close> does not change; the round runs only for
  \<open>0 \<le> SubbandIndex < S\<close>, so the integer division is never by zero. The factor
  \<open>static_cast<float>(FFTSubbandsSize) / MagnitudeSpectrumSize\<close> is a floating point
  division. \<open>FFTVariance[SubbandIndex]\<close> is read as the last call (or \<open>SetNum\<close>) left
  it: the code adds to it and does not reset it.
\<close>

definition subband_round ::
  "float list \<Rightarrow> int \<Rightarrow> int
   \<Rightarrow> float list \<times> float list \<times> float list
   \<Rightarrow> fault + float list \<times> float list \<times> float list" where
  "subband_round MagnitudeSpectrum S SubbandIndex arrays =
     (case arrays of (subbands, variance, beatValues) \<Rightarrow>
      let MagnitudeSpectrumSize = Num MagnitudeSpectrum;
          bins = tdiv MagnitudeSpectrumSize S;
          offset = SubbandIndex * bins
      in
      case set_elem subbands SubbandIndex 0 of Inl e \<Rightarrow> Inl e | Inr subbands0 \<Rightarrow>
      case subband_sum_loop MagnitudeSpectrum offset bins 0 0 of Inl e \<Rightarrow> Inl e | Inr summed \<Rightarrow>
      case fdiv (real_of_int S) (real_of_int MagnitudeSpectrumSize) of Inl e \<Rightarrow> Inl e | Inr factor \<Rightarrow>
      case set_elem subbands0 SubbandIndex (summed * factor) of Inl e \<Rightarrow> Inl e | Inr subbands' \<Rightarrow>
      case get_elem variance SubbandIndex of Inl e \<Rightarrow> Inl e | Inr variance0 \<Rightarrow>
      case subband_variance_loop MagnitudeSpectrum offset bins (summed * factor) 0 variance0 of
        Inl e \<Rightarrow> Inl e | Inr squares \<Rightarrow>
      case set_elem variance SubbandIndex (squares * factor) of Inl e \<Rightarrow> Inl e | Inr variance' \<Rightarrow>
      case set_elem beatValues SubbandIndex (- 0.0025714 * (squares * factor) + 1.15142857) of
        Inl e \<Rightarrow> Inl e | Inr beatValues' \<Rightarrow>
      Inr (subbands', variance', beatValues'))"

function subband_loop ::
  "float list \<Rightarrow> int \<Rightarrow> int
   \<Rightarrow> float list \<times> float list \<times> float list
   \<Rightarrow> fault + float list \<times> float list \<times> float list" where
  "subband_loop MagnitudeSpectrum S SubbandIndex arrays =
     (if SubbandIndex < S then
        (case subband_round MagnitudeSpectrum S SubbandIndex arrays of
           Inl e \<Rightarrow> Inl e
         | Inr arrays' \<Rightarrow> subband_loop MagnitudeSpectrum S (SubbandIndex + 1) arrays')
      else Inr arrays)"
  by pat_completeness auto
termination
  by (relation "measure (\<lambda>(M, S, SubbandIndex, arrays). nat (S - SubbandIndex))") auto

declare subband_loop.simps [simp del]

text \<open>
  The second outer loop: the average of the energy history of each sub-band, a sum over
  the \<open>H = EnergyHistorySize\<close> first entries divided (in floating point) by \<open>H\<close>.
\<close>

function history_sum_loop ::
  "float list list \<Rightarrow> int \<Rightarrow> int \<Rightarrow> int \<Rightarrow> float \<Rightarrow> fault + float" where
  "history_sum_loop history SubbandIndex H EnergyHistoryIndex acc =
     (if EnergyHistoryIndex < H then
        (case get_elem history SubbandIndex of Inl e \<Rightarrow> Inl e | Inr row \<Rightarrow>
         case get_elem row EnergyHistoryIndex of Inl e \<Rightarrow> Inl e | Inr energy \<Rightarrow>
         history_sum_loop history SubbandIndex H (EnergyHistoryIndex + 1) (acc + energy))
      else Inr acc)"
  by pat_completeness auto
termination
  by (relation "measure (\<lambda>(history, s, H, i, acc). nat (H - i))") auto

declare history_sum_loop.simps [simp del]

definition average_round ::
  "float list list \<Rightarrow> int \<Rightarrow> int \<Rightarrow> float list \<Rightarrow> fault + float list" where
  "average_round history H SubbandIndex averageEnergy =
     (case set_elem averageEnergy SubbandIndex 0 of Inl e \<Rightarrow> Inl e | Inr averageEnergy0 \<Rightarrow>
      case history_sum_loop history SubbandIndex H 0 0 of Inl e \<Rightarrow> Inl e | Inr summed \<Rightarrow>
      case fdiv summed (real_of_int H) of Inl e \<Rightarrow> Inl e | Inr average \<Rightarrow>
      set_elem averageEnergy0 SubbandIndex average)"

function average_loop ::
  "float list list \<Rightarrow> int \<Rightarrow> int \<Rightarrow> int \<Rightarrow> float list \<Rightarrow> fault + float list" where
  "average_loop history H S SubbandIndex averageEnergy =
     (if SubbandIndex < S then
        (case average_round history H SubbandIndex averageEnergy of
           Inl e \<Rightarrow> Inl e
         | Inr averageEnergy' \<Rightarrow> average_loop history H S (SubbandIndex + 1) averageEnergy')
      else Inr averageEnergy)"
  by pat_completeness auto
termination
  by (relation "measure (\<lambda>(history, H, S, SubbandIndex, a). nat (S - SubbandIndex))") auto

declare average_loop.simps [simp del]

text \<open>
  The third outer loop:
  \<open>EnergyHistory[SubbandIndex][HistoryPosition] = FFTSubbands[SubbandIndex]\<close>.
\<close>

function store_loop ::
  "float list \<Rightarrow> int \<Rightarrow> int \<Rightarrow> int \<Rightarrow> float list list \<Rightarrow> fault + float list list" where
  "store_loop subbands position S SubbandIndex history =
     (if SubbandIndex < S then
        (case get_elem history SubbandIndex of Inl e \<Rightarrow> Inl e | Inr row \<Rightarrow>
         case get_elem subbands SubbandIndex of Inl e \<Rightarrow> Inl e | Inr energy \<Rightarrow>
         case set_elem row position energy of Inl e \<Rightarrow> Inl e | Inr row' \<Rightarrow>
         case set_elem history SubbandIndex row' of Inl e \<Rightarrow> Inl e | Inr history' \<Rightarrow>
         store_loop subbands position S (SubbandIndex + 1) history')
      else Inr history)"
  by pat_completeness auto
termination
  by (relation "measure (\<lambda>(subbands, position, S, SubbandIndex, h). nat (S - SubbandIndex))") auto

declare store_loop.simps [simp del]

definition UpdateFFT :: "BeatDetection \<Rightarrow> float list \<Rightarrow> fault + BeatDetection" where
  "UpdateFFT st MagnitudeSpectrum =
     (case subband_loop MagnitudeSpectrum (FFTSubbandsSize st) 0
             (FFTSubbands st, FFTVariance st, FFTBeatValues st) of
        Inl e \<Rightarrow> Inl e
      | Inr (subbands, variance, beatValues) \<Rightarrow>
     (case average_loop (EnergyHistory st) (EnergyHistorySize st) (FFTSubbandsSize st) 0
             (FFTAverageEnergy st) of
        Inl e \<Rightarrow> Inl e
      | Inr averageEnergy \<Rightarrow>
     (case store_loop subbands (HistoryPosition st) (FFTSubbandsSize st) 0
             (EnergyHistory st) of
        Inl e \<Rightarrow> Inl e
      | Inr history \<Rightarrow>
          if EnergyHistorySize st = 0 then Inl IntDivideByZero
          else
            Inr (st\<lparr>FFTSubbands := subbands, FFTVariance := variance,
                    FFTBeatValues := beatValues, FFTAverageEnergy := averageEnergy,
                    EnergyHistory := history,
                    HistoryPosition :=
                      tmod (HistoryPosition st + 1) (EnergyHistorySize st)\<rparr>))))"

definition ProcessMagnitude :: "BeatDetection \<Rightarrow> float list \<Rightarrow> fault + BeatDetection" where
  "ProcessMagnitude st MagnitudeSpectrum = UpdateFFT st MagnitudeSpectrum"

text \<open>\<open>n\<close> calls of \<open>UpdateFFT\<close> with the same spectrum, one after the other.\<close>

primrec repeat_update :: "nat \<Rightarrow> float list \<Rightarrow> BeatDetection \<Rightarrow> fault + BeatDetection" where
  "repeat_update 0 MagnitudeSpectrum st = Inr st"
| "repeat_update (Suc n) MagnitudeSpectrum st =
     (case UpdateFFT st MagnitudeSpectrum of
        Inl e \<Rightarrow> Inl e
      | Inr st' \<Rightarrow> repeat_update n MagnitudeSpectrum st')"

subsection \<open>Queries\<close>

definition IsBeat :: "BeatDetection \<Rightarrow> int \<Rightarrow> fault + bool" where
  "IsBeat st SubBand =
     (if SubBand \<ge> FFTSubbandsSize st then Inr False
      else
        case get_elem (FFTSubbands st) SubBand of Inl e \<Rightarrow> Inl e | Inr energy \<Rightarrow>
        case get_elem (FFTAverageEnergy st) SubBand of Inl e \<Rightarrow> Inl e | Inr average \<Rightarrow>
        case get_elem (FFTBeatValues st) SubBand of Inl e \<Rightarrow> Inl e | Inr beatValue \<Rightarrow>
        Inr (energy > average * beatValue))"

function count_beats :: "BeatDetection \<Rightarrow> int \<Rightarrow> int \<Rightarrow> int \<Rightarrow> fault + int" where
  "count_beats st Index High NumOfBeats =
     (if Index < High + 1 then
        (case IsBeat st Index of
           Inl e \<Rightarrow> Inl e
         | Inr beat \<Rightarrow>
             count_beats st (Index + 1) High (if beat then NumOfBeats + 1 else NumOfBeats))
      else Inr NumOfBeats)"
  by pat_completeness auto
termination
  by (relation "measure (\<lambda>(st, Index, High, n). nat (High + 1 - Index))") auto

declare count_beats.simps [simp del]

definition IsBeatRange :: "BeatDetection \<Rightarrow> int \<Rightarrow> int \<Rightarrow> int \<Rightarrow> fault + bool" where
  "IsBeatRange st Low High Threshold =
     (if \<not> (Low \<ge> 0 \<and> Low < FFTSubbandsSize st) then Inr False
      else if \<not> (High \<ge> 0 \<and> High < FFTSubbandsSize st) then Inr False
      else if \<not> (High > Low) then Inr False
      else
        case count_beats st Low High 0 of
          Inl e \<Rightarrow> Inl e
        | Inr NumOfBeats \<Rightarrow> Inr (NumOfBeats > Threshold))"

definition IsSnare :: "BeatDetection \<Rightarrow> fault + bool" where
  "IsSnare st =
     (let Low = 1;
          High = tdiv (FFTSubbandsSize st) 3;
          Threshold = tdiv (High - Low) 3
      in IsBeatRange st Low High Threshold)"

definition IsHiHat :: "BeatDetection \<Rightarrow> fault + bool" where
  "IsHiHat st =
     (let Low = tdiv (FFTSubbandsSize st) 2;
          High = FFTSubbandsSize st - 1;
          Threshold = tdiv (High - Low) 3
      in IsBeatRange st Low High Threshold)"

subsection \<open>What the loops of \<open>UpdateFFT\<close> compute\<close>

text \<open>
  Closed forms of the values that one call of \<open>UpdateFFT\<close> stores; that the loops
  compute them is proved in the section on the loops. \<open>subband_bins\<close> are the bins that the inner loops visit for sub-band \<open>s\<close>:
  \<open>MagnitudeSpectrumSize / FFTSubbandsSize\<close> of them, from index
  \<open>s * (MagnitudeSpectrumSize / FFTSubbandsSize)\<close> on.
\<close>

definition subband_bins :: "float list \<Rightarrow> int \<Rightarrow> int \<Rightarrow> float list" where
  "subband_bins M S s = take (nat (Num M div S)) (drop (nat (s * (Num M div S))) M)"

definition subband_energy :: "float list \<Rightarrow> int \<Rightarrow> int \<Rightarrow> float" where
  "subband_energy M S s =
     sum_list (subband_bins M S s) * (real_of_int S / real_of_int (Num M))"

definition accumulated_variance :: "float list \<Rightarrow> int \<Rightarrow> float \<Rightarrow> int \<Rightarrow> float" where
  "accumulated_variance M S old s =
     (old + (\<Sum>x\<leftarrow>subband_bins M S s. (x - subband_energy M S s) ^ 2))
       * (real_of_int S / real_of_int (Num M))"

definition beat_value :: "float \<Rightarrow> float" where
  "beat_value v = - 0.0025714 * v + 1.15142857"

text \<open>
  The two statistics as the specification words them: the arithmetic mean of a list of
  bins (their sum divided by their number) and their variance around a value.
\<close>

definition mean :: "float list \<Rightarrow> float" where
  "mean xs = sum_list xs / real (length xs)"

definition variance_around :: "float \<Rightarrow> float list \<Rightarrow> float" where
  "variance_around average xs = (\<Sum>x\<leftarrow>xs. (x - average) ^ 2) / real (length xs)"

text \<open>
  \<open>rewrite_from s S f xs\<close>: the array \<open>xs\<close> after a loop has replaced, for every index
  \<open>j\<close> from \<open>s\<close> up to and without \<open>S\<close>, the element \<open>xs[j]\<close> by \<open>f j xs[j]\<close>.
\<close>

definition rewrite_from :: "int \<Rightarrow> int \<Rightarrow> (int \<Rightarrow> 'a \<Rightarrow> 'a) \<Rightarrow> 'a list \<Rightarrow> 'a list" where
  "rewrite_from s S f xs =
     map (\<lambda>j. if s \<le> int j \<and> int j < S then f (int j) (xs ! j) else xs ! j) [0..<length xs]"

text \<open>
  The states that the operations are meant to work on (the data model's invariant):
  both sizes positive, the four arrays of \<open>FFTSubbandsSize\<close> elements, one history
  buffer of \<open>EnergyHistorySize\<close> entries per sub-band (\<open>sized\<close>), and the cursor inside
  the buffers (\<open>well_formed\<close>).
\<close>

definition sized :: "BeatDetection \<Rightarrow> bool" where
  "sized st \<longleftrightarrow>
     0 < FFTSubbandsSize st \<and> 0 < EnergyHistorySize st
     \<and> length (FFTSubbands st) = nat (FFTSubbandsSize st)
     \<and> length (FFTAverageEnergy st) = nat (FFTSubbandsSize st)
     \<and> length (FFTVariance st) = nat (FFTSubbandsSize st)
     \<and> length (FFTBeatValues st) = nat (FFTSubbandsSize st)
     \<and> length (EnergyHistory st) = nat (FFTSubbandsSize st)
     \<and> list_all (\<lambda>row. length row = nat (EnergyHistorySize st)) (EnergyHistory st)"

definition well_formed :: "BeatDetection \<Rightarrow> bool" where
  "well_formed st \<longleftrightarrow>
     sized st \<and> 0 \<le> HistoryPosition st \<and> HistoryPosition st < EnergyHistorySize st"

text \<open>The state after one call of \<open>UpdateFFT\<close> on a well-formed state, in closed form.\<close>

definition updated :: "BeatDetection \<Rightarrow> float list \<Rightarrow> BeatDetection" where
  "updated st M =
     (let S = FFTSubbandsSize st; H = EnergyHistorySize st in
      st\<lparr>FFTSubbands := map (\<lambda>j. subband_energy M S (int j)) [0..<nat S],
         FFTVariance :=
           map (\<lambda>j. accumulated_variance M S (FFTVariance st ! j) (int j)) [0..<nat S],
         FFTBeatValues :=
           map (\<lambda>j. beat_value (accumulated_variance M S (FFTVariance st ! j) (int j)))
             [0..<nat S],
         FFTAverageEnergy :=
           map (\<lambda>j. sum_list (EnergyHistory st ! j) / real_of_int H) [0..<nat S],
         EnergyHistory :=
           map (\<lambda>j. (EnergyHistory st ! j)[nat (HistoryPosition st) := subband_energy M S (int j)])
             [0..<nat S],
         HistoryPosition := (HistoryPosition st + 1) mod H\<rparr>)"

primrec updated_times :: "nat \<Rightarrow> float list \<Rightarrow> BeatDetection \<Rightarrow> BeatDetection" where
  "updated_times 0 M st = st"
| "updated_times (Suc n) M st = updated_times n M (updated st M)"

subsection \<open>States and spectra used in examples and proofs\<close>

text \<open>
  \<open>settled M st\<close>: with two history entries per sub-band, both entries of every buffer
  hold the energy that the spectrum \<open>M\<close> gives the sub-band.
\<close>

definition settled :: "float list \<Rightarrow> BeatDetection \<Rightarrow> bool" where
  "settled M st \<longleftrightarrow>
     well_formed st \<and> EnergyHistorySize st = 2
     \<and> (\<forall>j < nat (FFTSubbandsSize st).
           EnergyHistory st ! j
           = [subband_energy M (FFTSubbandsSize st) (int j),
              subband_energy M (FFTSubbandsSize st) (int j)])"

text \<open>
  The detector that \<open>CreateBeatDetection 4 2\<close> returns, and a spectrum of eight bins
  with one loud bin in the first sub-band.
\<close>

definition loud_bin :: "float list" where
  "loud_bin = [0, 100, 0, 0, 0, 0, 0, 0]"

definition fresh_4_2 :: BeatDetection where
  "fresh_4_2 =
     \<lparr>HistoryPosition = 0, FFTSubbandsSize = 4, EnergyHistorySize = 2,
      FFTSubbands = [0, 0, 0, 0], FFTAverageEnergy = [0, 0, 0, 0],
      FFTVariance = [0, 0, 0, 0], FFTBeatValues = [0, 0, 0, 0],
      EnergyHistory = [[0, 0], [0, 0], [0, 0], [0, 0]]\<rparr>"

definition loud_invariant :: "BeatDetection \<Rightarrow> bool" where
  "loud_invariant st \<longleftrightarrow>
     well_formed st \<and> FFTSubbandsSize st = 4 \<and> EnergyHistorySize st = 2
     \<and> 0 \<le> FFTVariance st ! 0 \<and> list_all (\<lambda>x. 0 \<le> x) (EnergyHistory st ! 0)"

text \<open>
  The detector of \<open>CreateBeatDetection 1 2\<close> after one call of \<open>UpdateFFT\<close> with the
  spectrum \<open>[1]\<close>, and a detector of four sub-bands with a beat in sub-bands 0 and 2.
\<close>

definition played_1_2 :: BeatDetection where
  "played_1_2 =
     \<lparr>HistoryPosition = 1, FFTSubbandsSize = 1, EnergyHistorySize = 2,
      FFTSubbands = [1], FFTAverageEnergy = [0],
      FFTVariance = [0], FFTBeatValues = [beat_value 0],
      EnergyHistory = [[1, 0]]\<rparr>"

definition two_beats :: BeatDetection where
  "two_beats =
     \<lparr>HistoryPosition = 0, FFTSubbandsSize = 4, EnergyHistorySize = 2,
      FFTSubbands = [5, 0, 5, 0], FFTAverageEnergy = [1, 1, 1, 1],
      FFTVariance = [0, 0, 0, 0], FFTBeatValues = [1, 1, 1, 1],
      EnergyHistory = [[1, 1], [1, 1], [1, 1], [1, 1]]\<rparr>"

section \<open>Reading a frame from a sound wave (\<open>UAudioAnalysisToolsLibrary\<close>)\<close>

text \<open>
  The sound wave is an object of another library; of it the function reads the number of
  channels, the number of frames of the PCM buffer (a \<open>uint32\<close>) and the view of the
  interleaved samples. The view is a list; a view without elements has the null data
  pointer. The caller's pointer to the sound wave is an \<open>option\<close>: the function
  dereferences it without a test.
\<close>

record ImportedSoundWave =
  NumChannels :: int
  PCMNumOfFrames :: int
  PCMData :: "float list"

definition to_uint32 :: "int \<Rightarrow> int" where
  "to_uint32 x = x mod 2 ^ 32"

text \<open>
  The product \<open>StartFrame * NumChannels\<close> is a product of two \<open>int32\<close>; outside of the
  range of \<open>int32\<close> it wraps around.
\<close>

definition to_int32 :: "int \<Rightarrow> int" where
  "to_int32 x = (x + 2 ^ 31) mod 2 ^ 32 - 2 ^ 31"

text \<open>
  \<open>TArray<float>(Data, Count)\<close>: a copy of \<open>Count\<close> elements from \<open>offset\<close> on; a run
  that leaves the buffer is a read out of range.
\<close>

definition copy_run :: "float list \<Rightarrow> int \<Rightarrow> int \<Rightarrow> fault + float list" where
  "copy_run samples offset count =
     (if 0 \<le> offset \<and> 0 \<le> count \<and> offset + count \<le> Num samples
      then Inr (take (nat count) (drop (nat offset) samples))
      else Inl IndexOutOfRange)"

text \<open>
  The result is the returned \<open>bool\<close> and the caller's \<open>AudioFrame\<close> after the call.
\<close>

definition GetAudioFrameFromSoundWaveByFramesCustom ::
  "ImportedSoundWave option \<Rightarrow> int \<Rightarrow> int \<Rightarrow> float list \<Rightarrow> fault + bool \<times> float list" where
  "GetAudioFrameFromSoundWaveByFramesCustom ImportedSoundWave StartFrame EndFrame AudioFrame =
     (if \<not> (StartFrame \<ge> 0 \<and> StartFrame < EndFrame) then Inr (False, AudioFrame)
      else if \<not> (EndFrame > 0 \<and> EndFrame > StartFrame) then Inr (False, AudioFrame)
      else
        case ImportedSoundWave of
          None \<Rightarrow> Inl NullDereference
        | Some wave \<Rightarrow>
            if to_uint32 EndFrame > PCMNumOfFrames wave then Inr (False, AudioFrame)
            else
              let offset = to_int32 (StartFrame * NumChannels wave);
                  RetrievedPCMDataSize = to_uint32 (EndFrame - StartFrame)
              in
              if PCMData wave = [] \<and> offset = 0 then Inr (False, AudioFrame)
              else if RetrievedPCMDataSize \<le> 0 then Inr (False, AudioFrame)
              else if RetrievedPCMDataSize > to_uint32 (Num (PCMData wave))
                then Inr (False, AudioFrame)
              else
                case copy_run (PCMData wave) offset RetrievedPCMDataSize of
                  Inl e \<Rightarrow> Inl e
                | Inr frame \<Rightarrow> Inr (True, frame))"

section \<open>Arrays and integer arithmetic\<close>

lemma get_elem_in: "0 \<le> i \<Longrightarrow> i < int (length xs) \<Longrightarrow> get_elem xs i = Inr (xs ! nat i)"
  by (simp add: get_elem_def Num_def)

lemma set_elem_in: "0 \<le> i \<Longrightarrow> i < int (length xs) \<Longrightarrow> set_elem xs i v = Inr (xs[nat i := v])"
  by (simp add: set_elem_def Num_def)

lemma tdiv_nonneg: "0 \<le> a \<Longrightarrow> 0 < b \<Longrightarrow> tdiv a b = a div b"
  by (simp add: tdiv_def)

lemma tmod_nonneg: "0 \<le> a \<Longrightarrow> 0 < b \<Longrightarrow> tmod a b = a mod b"
  by (simp add: tmod_def tdiv_nonneg minus_mult_div_eq_mod)

lemma take_Suc_drop:
  "k < length xs \<Longrightarrow> take (Suc n) (drop k xs) = xs ! k # take n (drop (Suc k) xs)"
  by (metis Cons_nth_drop_Suc take_Suc_Cons)

lemma bins_fit:
  assumes "0 \<le> s" "s < S" "0 \<le> (len :: int)"
  shows "s * (len div S) + len div S \<le> len" "0 \<le> s * (len div S)" "0 \<le> len div S"
proof -
  have S: "0 < S" using assms by simp
  show k: "0 \<le> len div S" using S assms(3) by (simp add: pos_imp_zdiv_nonneg_iff)
  show "0 \<le> s * (len div S)" using k assms(1) by simp
  have "s * (len div S) + len div S = (s + 1) * (len div S)" by (simp add: algebra_simps)
  also have "\<dots> \<le> S * (len div S)" using k assms(2) by (intro mult_right_mono) auto
  also have "\<dots> \<le> len"
    using pos_mod_sign [OF S, of len] mult_div_mod_eq [of S len] by linarith
  finally show "s * (len div S) + len div S \<le> len" .
qed

lemma length_SetNum [simp]: "length (SetNum xs n d) = nat n"
  by (simp add: SetNum_def)

lemma SetNum_same: "length xs = nat n \<Longrightarrow> SetNum xs n d = xs"
  by (simp add: SetNum_def)

text \<open>
  \<open>rewrite_from\<close>: one step of a loop over the indices, the loop at its end, and the whole loop.
\<close>

lemma length_rewrite_from [simp]: "length (rewrite_from s S f xs) = length xs"
  by (simp add: rewrite_from_def)

lemma rewrite_from_done: "S \<le> s \<Longrightarrow> rewrite_from s S f xs = xs"
  by (rule nth_equalityI) (auto simp: rewrite_from_def)

lemma rewrite_from_step:
  assumes "0 \<le> s" "s < S" "v = f s (xs ! nat s)"
    and "\<And>j x. s < j \<Longrightarrow> g j x = f j x"
  shows "rewrite_from (s + 1) S g (xs[nat s := v]) = rewrite_from s S f xs"
proof (rule nth_equalityI)
  show "length (rewrite_from (s + 1) S g (xs[nat s := v])) = length (rewrite_from s S f xs)"
    by simp
next
  fix i assume "i < length (rewrite_from (s + 1) S g (xs[nat s := v]))"
  then have i: "i < length xs" by simp
  show "rewrite_from (s + 1) S g (xs[nat s := v]) ! i = rewrite_from s S f xs ! i"
  proof (cases "i = nat s")
    case True
    with assms(1) have s: "s = int i" by simp
    show ?thesis using i assms(2,3) unfolding s by (simp add: rewrite_from_def)
  next
    case False
    then have "int i \<noteq> s" by auto
    then show ?thesis using i False assms by (auto simp: rewrite_from_def)
  qed
qed

lemma nth_rewrite_from:
  "j < length xs \<Longrightarrow>
   rewrite_from s S f xs ! j = (if s \<le> int j \<and> int j < S then f (int j) (xs ! j) else xs ! j)"
  by (simp add: rewrite_from_def)

lemma rewrite_from_all:
  "length xs = nat S \<Longrightarrow> rewrite_from 0 S f xs = map (\<lambda>j. f (int j) (xs ! j)) [0..<nat S]"
  by (rule nth_equalityI) (auto simp: rewrite_from_def)

lemma rewrite_from_map:
  "length xs = nat S \<Longrightarrow> rewrite_from 0 S (\<lambda>_. f) xs = map f xs"
  by (rule nth_equalityI) (auto simp: rewrite_from_def)

section \<open>The loops of \<open>UpdateFFT\<close>\<close>

text \<open>
  On indices in range the loops do not fault, and return the closed forms.
\<close>

lemma subband_sum_loop_eq:
  assumes "0 \<le> offset" "0 \<le> i" "offset + bins \<le> int (length M)"
  shows "subband_sum_loop M offset bins i acc
         = Inr (acc + sum_list (take (nat (bins - i)) (drop (nat (offset + i)) M)))"
  using assms
proof (induction M offset bins i acc rule: subband_sum_loop.induct)
  case (1 M offset bins i acc)
  show ?case
  proof (cases "i < bins")
    case True
    have inr: "offset + i < int (length M)" "0 \<le> offset + i"
      using True 1(2-4) by auto
    have g: "get_elem M (offset + i) = Inr (M ! nat (offset + i))"
      using inr by (simp add: get_elem_in)
    have n: "nat (bins - i) = Suc (nat (bins - (i + 1)))"
      using True by simp
    have k: "nat (offset + (i + 1)) = Suc (nat (offset + i))"
      using inr by simp
    have ih: "subband_sum_loop M offset bins (i + 1) (acc + M ! nat (offset + i))
         = Inr (acc + M ! nat (offset + i)
                + sum_list (take (nat (bins - (i + 1))) (drop (nat (offset + (i + 1))) M)))"
      using 1(1) [OF True g] 1(2-4) by simp
    have lt: "nat (offset + i) < length M" using inr by simp
    show ?thesis
      by (subst subband_sum_loop.simps) (simp add: True g ih n k take_Suc_drop [OF lt] del: take_Suc)
  next
    case False
    then show ?thesis
      by (subst subband_sum_loop.simps) simp
  qed
qed

lemma subband_variance_loop_eq:
  assumes "0 \<le> offset" "0 \<le> i" "offset + bins \<le> int (length M)"
  shows "subband_variance_loop M offset bins avg i acc
         = Inr (acc + (\<Sum>x\<leftarrow>take (nat (bins - i)) (drop (nat (offset + i)) M). (x - avg) ^ 2))"
  using assms
proof (induction M offset bins avg i acc rule: subband_variance_loop.induct)
  case (1 M offset bins avg i acc)
  show ?case
  proof (cases "i < bins")
    case True
    have inr: "offset + i < int (length M)" "0 \<le> offset + i"
      using True 1(2-4) by auto
    have g: "get_elem M (offset + i) = Inr (M ! nat (offset + i))"
      using inr by (simp add: get_elem_in)
    have n: "nat (bins - i) = Suc (nat (bins - (i + 1)))"
      using True by simp
    have k: "nat (offset + (i + 1)) = Suc (nat (offset + i))"
      using inr by simp
    have ih: "subband_variance_loop M offset bins avg (i + 1) (acc + (M ! nat (offset + i) - avg) ^ 2)
         = Inr (acc + (M ! nat (offset + i) - avg) ^ 2
                + (\<Sum>x\<leftarrow>take (nat (bins - (i + 1))) (drop (nat (offset + (i + 1))) M). (x - avg) ^ 2))"
      using 1(1) [OF True g] 1(2-4) by simp
    have lt: "nat (offset + i) < length M" using inr by simp
    show ?thesis
      by (subst subband_variance_loop.simps) (simp add: True g ih n k take_Suc_drop [OF lt] del: take_Suc)
  next
    case False
    then show ?thesis
      by (subst subband_variance_loop.simps) simp
  qed
qed

lemma subband_round_eq:
  assumes s: "0 \<le> s" "s < S"
    and len: "length sb = nat S" "length var = nat S" "length bv = nat S"
    and M: "M \<noteq> []"
  shows "subband_round M S s (sb, var, bv)
         = Inr (sb[nat s := subband_energy M S s],
                var[nat s := accumulated_variance M S (var ! nat s) s],
                bv[nat s := beat_value (accumulated_variance M S (var ! nat s) s)])"
proof -
  let ?k = "Num M div S"
  let ?f = "real_of_int S / real_of_int (Num M)"
  have S: "0 < S" using s by simp
  have fit: "s * ?k + ?k \<le> int (length M)" "0 \<le> s * ?k" "0 \<le> ?k"
    using bins_fit [OF s, of "Num M"] by (simp_all add: Num_def)
  have td: "tdiv (Num M) S = ?k" using S by (simp add: tdiv_nonneg Num_def)
  have idx: "s < int (length sb)" "s < int (length var)" "s < int (length bv)"
    using s len by simp_all
  have w1: "set_elem sb s 0 = Inr (sb[nat s := 0])"
    using s idx by (simp add: set_elem_in)
  have w2: "\<And>v. set_elem (sb[nat s := 0]) s v = Inr (sb[nat s := v])"
    using s idx by (simp add: set_elem_in)
  have r3: "get_elem var s = Inr (var ! nat s)"
    using s idx by (simp add: get_elem_in)
  have w4: "\<And>v. set_elem var s v = Inr (var[nat s := v])"
    using s idx by (simp add: set_elem_in)
  have w5: "\<And>v. set_elem bv s v = Inr (bv[nat s := v])"
    using s idx by (simp add: set_elem_in)
  have sum: "subband_sum_loop M (s * ?k) ?k 0 0 = Inr (sum_list (subband_bins M S s))"
    using subband_sum_loop_eq [of "s * ?k" 0 ?k M 0] fit
    by (simp add: subband_bins_def)
  have fd: "fdiv (real_of_int S) (real_of_int (Num M)) = Inr ?f"
    using M by (simp add: fdiv_def Num_def)
  have var: "\<And>a. subband_variance_loop M (s * ?k) ?k a 0 (var ! nat s)
     = Inr (var ! nat s + (\<Sum>x\<leftarrow>subband_bins M S s. (x - a) ^ 2))"
    using subband_variance_loop_eq [of "s * ?k" 0 ?k M _ "var ! nat s"] fit
    by (simp add: subband_bins_def)
  show ?thesis
    unfolding subband_round_def subband_energy_def accumulated_variance_def beat_value_def
    by (simp only: prod.case Let_def td w1 w2 r3 w4 w5 sum fd var sum.case)
qed

lemma subband_loop_eq:
  assumes "0 \<le> s" "s \<le> S"
    and "length sb = nat S" "length var = nat S" "length bv = nat S"
    and M: "M \<noteq> []"
  shows "subband_loop M S s (sb, var, bv)
         = Inr (rewrite_from s S (\<lambda>j _. subband_energy M S j) sb,
                rewrite_from s S (\<lambda>j old. accumulated_variance M S old j) var,
                rewrite_from s S
                  (\<lambda>j _. beat_value (accumulated_variance M S (var ! nat j) j)) bv)"
  using assms(1-5)
proof (induction "nat (S - s)" arbitrary: s sb var bv)
  case 0
  then have "S \<le> s" by simp
  then show ?case
    by (subst subband_loop.simps) (simp add: rewrite_from_done)
next
  case (Suc n)
  then have lt: "s < S" by simp
  let ?sb = "sb[nat s := subband_energy M S s]"
  let ?var = "var[nat s := accumulated_variance M S (var ! nat s) s]"
  let ?bv = "bv[nat s := beat_value (accumulated_variance M S (var ! nat s) s)]"
  have round: "subband_round M S s (sb, var, bv) = Inr (?sb, ?var, ?bv)"
    using subband_round_eq [OF Suc(3) lt Suc(5-7) M] .
  have n: "n = nat (S - (s + 1))" using Suc(2) by simp
  have ih: "subband_loop M S (s + 1) (?sb, ?var, ?bv)
     = Inr (rewrite_from (s + 1) S (\<lambda>j _. subband_energy M S j) ?sb,
            rewrite_from (s + 1) S (\<lambda>j old. accumulated_variance M S old j) ?var,
            rewrite_from (s + 1) S
              (\<lambda>j _. beat_value (accumulated_variance M S (?var ! nat j) j)) ?bv)"
    using Suc(1) [OF n, of ?sb ?var ?bv] Suc(3) lt Suc(5-7) by simp
  have a: "rewrite_from (s + 1) S (\<lambda>j _. subband_energy M S j) ?sb
         = rewrite_from s S (\<lambda>j _. subband_energy M S j) sb"
    by (rule rewrite_from_step [OF Suc(3) lt]) simp_all
  have b: "rewrite_from (s + 1) S (\<lambda>j old. accumulated_variance M S old j) ?var
         = rewrite_from s S (\<lambda>j old. accumulated_variance M S old j) var"
    by (rule rewrite_from_step [OF Suc(3) lt]) simp_all
  have c: "rewrite_from (s + 1) S
              (\<lambda>j _. beat_value (accumulated_variance M S (?var ! nat j) j)) ?bv
         = rewrite_from s S
              (\<lambda>j _. beat_value (accumulated_variance M S (var ! nat j) j)) bv"
  proof (rule rewrite_from_step [OF Suc(3) lt])
    fix j :: int and x :: real
    assume "s < j"
    then have "nat j \<noteq> nat s" using Suc(3) by simp
    then show "beat_value (accumulated_variance M S (?var ! nat j) j)
             = beat_value (accumulated_variance M S (var ! nat j) j)"
      by simp
  qed simp
  show ?case
    by (subst subband_loop.simps) (simp only: lt if_True round sum.case ih a b c)
qed

lemma history_sum_loop_eq:
  assumes "0 \<le> s" "s < int (length history)" "0 \<le> j" "H \<le> int (length (history ! nat s))"
  shows "history_sum_loop history s H j acc
         = Inr (acc + sum_list (take (nat (H - j)) (drop (nat j) (history ! nat s))))"
  using assms
proof (induction history s H j acc rule: history_sum_loop.induct)
  case (1 history s H j acc)
  let ?row = "history ! nat s"
  show ?case
  proof (cases "j < H")
    case True
    have g1: "get_elem history s = Inr ?row"
      using 1(2,3) by (simp add: get_elem_in)
    have lt: "nat j < length ?row" using True 1(4,5) by simp
    have g2: "get_elem ?row j = Inr (?row ! nat j)"
      using True 1(4,5) by (simp add: get_elem_in)
    have n: "nat (H - j) = Suc (nat (H - (j + 1)))" using True by simp
    have k: "nat (j + 1) = Suc (nat j)" using 1(4) by simp
    have ih: "history_sum_loop history s H (j + 1) (acc + ?row ! nat j)
       = Inr (acc + ?row ! nat j + sum_list (take (nat (H - (j + 1))) (drop (nat (j + 1)) ?row)))"
      using 1(1) [OF True g1 g2] 1(2-5) by simp
    show ?thesis
      by (subst history_sum_loop.simps)
         (simp add: True g1 g2 ih n k take_Suc_drop [OF lt] del: take_Suc)
  next
    case False
    then show ?thesis
      by (subst history_sum_loop.simps) simp
  qed
qed

lemma average_round_eq:
  assumes "0 \<le> s" "s < int (length avg)" "s < int (length history)" "0 < H"
    and "length (history ! nat s) = nat H"
  shows "average_round history H s avg
         = Inr (avg[nat s := sum_list (history ! nat s) / real_of_int H])"
proof -
  have w1: "set_elem avg s 0 = Inr (avg[nat s := 0])"
    using assms by (simp add: set_elem_in)
  have w2: "\<And>v. set_elem (avg[nat s := 0]) s v = Inr (avg[nat s := v])"
    using assms by (simp add: set_elem_in)
  have sum: "history_sum_loop history s H 0 0 = Inr (sum_list (history ! nat s))"
    using history_sum_loop_eq [of s history 0 H 0] assms by simp
  have fd: "\<And>x. fdiv x (real_of_int H) = Inr (x / real_of_int H)"
    using assms(4) by (simp add: fdiv_def)
  show ?thesis
    unfolding average_round_def
    by (simp only: w1 w2 sum fd sum.case)
qed

lemma average_loop_eq:
  assumes "0 \<le> s" "s \<le> S" "length avg = nat S" "length history = nat S" "0 < H"
    and "list_all (\<lambda>row. length row = nat H) history"
  shows "average_loop history H S s avg
         = Inr (rewrite_from s S (\<lambda>j _. sum_list (history ! nat j) / real_of_int H) avg)"
  using assms(1-3)
proof (induction "nat (S - s)" arbitrary: s avg)
  case 0
  then have "S \<le> s" by simp
  then show ?case
    by (subst average_loop.simps) (simp add: rewrite_from_done)
next
  case (Suc n)
  then have lt: "s < S" by simp
  let ?avg = "avg[nat s := sum_list (history ! nat s) / real_of_int H]"
  have row: "length (history ! nat s) = nat H"
    using assms(4,6) lt Suc(3) by (simp add: list_all_length)
  have round: "average_round history H s avg = Inr ?avg"
    using average_round_eq [of s avg history H] Suc(3,5) lt assms(4,5) row by simp
  have n: "n = nat (S - (s + 1))" using Suc(2) by simp
  have ih: "average_loop history H S (s + 1) ?avg
     = Inr (rewrite_from (s + 1) S (\<lambda>j _. sum_list (history ! nat j) / real_of_int H) ?avg)"
    using Suc(1) [OF n, of ?avg] Suc(3,5) lt by simp
  have a: "rewrite_from (s + 1) S (\<lambda>j _. sum_list (history ! nat j) / real_of_int H) ?avg
         = rewrite_from s S (\<lambda>j _. sum_list (history ! nat j) / real_of_int H) avg"
    by (rule rewrite_from_step [OF Suc(3) lt]) simp_all
  show ?case
    by (subst average_loop.simps) (simp only: lt if_True round sum.case ih a)
qed

lemma store_loop_eq:
  assumes "0 \<le> s" "s \<le> S" "length history = nat S" "length sb = nat S"
    and "0 \<le> pos" "pos < H"
    and "list_all (\<lambda>row. length row = nat H) history"
  shows "store_loop sb pos S s history
         = Inr (rewrite_from s S (\<lambda>j row. row[nat pos := sb ! nat j]) history)"
  using assms(1-3,7)
proof (induction "nat (S - s)" arbitrary: s history)
  case 0
  then have "S \<le> s" by simp
  then show ?case
    by (subst store_loop.simps) (simp add: rewrite_from_done)
next
  case (Suc n)
  then have lt: "s < S" by simp
  let ?row = "history ! nat s"
  let ?h = "history[nat s := ?row[nat pos := sb ! nat s]]"
  have row: "length ?row = nat H"
    using Suc(5,6) lt Suc(3) by (simp add: list_all_length)
  have g1: "get_elem history s = Inr ?row"
    using Suc(3,5) lt by (simp add: get_elem_in)
  have g2: "get_elem sb s = Inr (sb ! nat s)"
    using Suc(3) lt assms(4) by (simp add: get_elem_in)
  have w3: "set_elem ?row pos (sb ! nat s) = Inr (?row[nat pos := sb ! nat s])"
    using row assms(5,6) by (simp add: set_elem_in)
  have w4: "\<And>v. set_elem history s v = Inr (history[nat s := v])"
    using Suc(3,5) lt by (simp add: set_elem_in)
  have n: "n = nat (S - (s + 1))" using Suc(2) by simp
  have rows: "list_all (\<lambda>row. length row = nat H) ?h"
    using Suc(3,5,6) lt by (auto simp: list_all_length nth_list_update)
  have ih: "store_loop sb pos S (s + 1) ?h
     = Inr (rewrite_from (s + 1) S (\<lambda>j row. row[nat pos := sb ! nat j]) ?h)"
    using Suc(1) [OF n, of ?h] Suc(3,5) lt rows by simp
  have a: "rewrite_from (s + 1) S (\<lambda>j row. row[nat pos := sb ! nat j]) ?h
         = rewrite_from s S (\<lambda>j row. row[nat pos := sb ! nat j]) history"
    by (rule rewrite_from_step [OF Suc(3) lt]) simp_all
  show ?case
    by (subst store_loop.simps) (simp only: lt if_True g1 g2 w3 w4 sum.case ih a)
qed

text \<open>
  One call of \<open>UpdateFFT\<close> on a well-formed state and a spectrum that is not empty.
\<close>

lemma UpdateFFT_eq:
  assumes wf: "well_formed st" and M: "M \<noteq> []"
  shows "UpdateFFT st M = Inr (updated st M)"
proof -
  let ?S = "FFTSubbandsSize st"
  let ?H = "EnergyHistorySize st"
  have S: "0 < ?S" and H: "0 < ?H"
    and l: "length (FFTSubbands st) = nat ?S" "length (FFTAverageEnergy st) = nat ?S"
      "length (FFTVariance st) = nat ?S" "length (FFTBeatValues st) = nat ?S"
      "length (EnergyHistory st) = nat ?S"
    and rows: "list_all (\<lambda>row. length row = nat ?H) (EnergyHistory st)"
    and pos: "0 \<le> HistoryPosition st" "HistoryPosition st < ?H"
    using wf by (simp_all add: well_formed_def sized_def)
  let ?sb = "map (\<lambda>j. subband_energy M ?S (int j)) [0..<nat ?S]"
  have first: "subband_loop M ?S 0 (FFTSubbands st, FFTVariance st, FFTBeatValues st)
     = Inr (?sb,
            map (\<lambda>j. accumulated_variance M ?S (FFTVariance st ! j) (int j)) [0..<nat ?S],
            map (\<lambda>j. beat_value (accumulated_variance M ?S (FFTVariance st ! j) (int j)))
              [0..<nat ?S])"
    using subband_loop_eq [of 0 ?S "FFTSubbands st" "FFTVariance st" "FFTBeatValues st" M]
      S l M by (simp add: rewrite_from_all)
  have second: "average_loop (EnergyHistory st) ?H ?S 0 (FFTAverageEnergy st)
     = Inr (map (\<lambda>j. sum_list (EnergyHistory st ! j) / real_of_int ?H) [0..<nat ?S])"
    using average_loop_eq [of 0 ?S "FFTAverageEnergy st" "EnergyHistory st" ?H]
      S H l rows by (simp add: rewrite_from_all)
  have "store_loop ?sb (HistoryPosition st) ?S 0 (EnergyHistory st)
     = Inr (map (\<lambda>j. (EnergyHistory st ! j)[nat (HistoryPosition st) := ?sb ! j]) [0..<nat ?S])"
    using store_loop_eq [of 0 ?S "EnergyHistory st" ?sb "HistoryPosition st" ?H]
      S l rows pos by (simp add: rewrite_from_all)
  also have "map (\<lambda>j. (EnergyHistory st ! j)[nat (HistoryPosition st) := ?sb ! j]) [0..<nat ?S]
     = map (\<lambda>j. (EnergyHistory st ! j)[nat (HistoryPosition st) := subband_energy M ?S (int j)])
         [0..<nat ?S]"
    by (rule map_cong) simp_all
  finally have third: "store_loop ?sb (HistoryPosition st) ?S 0 (EnergyHistory st)
     = Inr (map (\<lambda>j. (EnergyHistory st ! j)[nat (HistoryPosition st) := subband_energy M ?S (int j)])
         [0..<nat ?S])" .
  have tm: "tmod (HistoryPosition st + 1) ?H = (HistoryPosition st + 1) mod ?H"
    using pos H by (simp add: tmod_nonneg)
  have H0: "?H \<noteq> 0" using H by simp
  show ?thesis
    unfolding UpdateFFT_def updated_def Let_def
    by (simp only: first second third sum.case prod.case tm H0 if_False)
qed

lemma well_formed_updated:
  assumes "well_formed st"
  shows "well_formed (updated st M)"
  using assms
  by (simp add: well_formed_def sized_def updated_def Let_def list_all_length)

lemma sized_updated:
  assumes "sized st" "0 \<le> HistoryPosition st" "HistoryPosition st < EnergyHistorySize st"
  shows "sized (updated st M)"
  using well_formed_updated [of st M] assms by (simp add: well_formed_def)

lemma updated_sizes [simp]:
  "FFTSubbandsSize (updated st M) = FFTSubbandsSize st"
  "EnergyHistorySize (updated st M) = EnergyHistorySize st"
  by (simp_all add: updated_def Let_def)

lemma updated_nth:
  assumes "0 \<le> s" "s < FFTSubbandsSize st"
  shows "FFTSubbands (updated st M) ! nat s = subband_energy M (FFTSubbandsSize st) s"
    and "FFTVariance (updated st M) ! nat s
         = accumulated_variance M (FFTSubbandsSize st) (FFTVariance st ! nat s) s"
    and "FFTBeatValues (updated st M) ! nat s
         = beat_value (accumulated_variance M (FFTSubbandsSize st) (FFTVariance st ! nat s) s)"
    and "FFTAverageEnergy (updated st M) ! nat s
         = sum_list (EnergyHistory st ! nat s) / real_of_int (EnergyHistorySize st)"
    and "EnergyHistory (updated st M) ! nat s
         = (EnergyHistory st ! nat s)[nat (HistoryPosition st)
              := subband_energy M (FFTSubbandsSize st) s]"
    and "HistoryPosition (updated st M)
         = (HistoryPosition st + 1) mod EnergyHistorySize st"
  using assms by (simp_all add: updated_def Let_def)

text \<open>
  On the empty spectrum the factor is a division by zero; with the cursor outside of the
  buffers the store loop writes out of range.
\<close>

lemma subband_loop_empty_spectrum:
  assumes "0 < S" "length sb = nat S"
  shows "subband_loop [] S 0 (sb, var, bv) = Inl FloatNotFinite"
proof -
  have w: "set_elem sb 0 0 = Inr (sb[0 := 0])"
    using assms by (simp add: set_elem_in)
  have t: "tdiv (Num []) S = 0"
    using assms(1) by (simp add: tdiv_def Num_def)
  have l: "subband_sum_loop [] 0 0 0 0 = Inr 0"
    by (subst subband_sum_loop.simps) simp
  have f: "fdiv (real_of_int S) (real_of_int (Num [])) = Inl FloatNotFinite"
    by (simp add: fdiv_def Num_def)
  have "subband_round [] S 0 (sb, var, bv) = Inl FloatNotFinite"
    unfolding subband_round_def
    by (simp only: prod.case Let_def t mult_zero_left w l f sum.case)
  then show ?thesis
    using assms(1) by (subst subband_loop.simps) simp
qed

lemma store_loop_outside:
  assumes "0 < S" "length history = nat S" "length sb = nat S"
    and "\<not> (0 \<le> pos \<and> pos < int (length (history ! 0)))"
  shows "store_loop sb pos S 0 history = Inl IndexOutOfRange"
proof -
  have g1: "get_elem history 0 = Inr (history ! 0)"
    using assms by (simp add: get_elem_in)
  have g2: "get_elem sb 0 = Inr (sb ! 0)"
    using assms by (simp add: get_elem_in)
  have w: "set_elem (history ! 0) pos (sb ! 0) = Inl IndexOutOfRange"
    using assms(4) by (simp add: set_elem_def Num_def)
  show ?thesis
    using assms(1) by (subst store_loop.simps) (simp add: g1 g2 w)
qed

lemma UpdateFFT_sized:
  assumes "sized st"
  shows "UpdateFFT st M =
           (if M = [] then Inl FloatNotFinite
            else if 0 \<le> HistoryPosition st \<and> HistoryPosition st < EnergyHistorySize st
              then Inr (updated st M)
            else Inl IndexOutOfRange)"
proof -
  let ?S = "FFTSubbandsSize st"
  let ?H = "EnergyHistorySize st"
  have S: "0 < ?S" and H: "0 < ?H"
    and l: "length (FFTSubbands st) = nat ?S" "length (FFTAverageEnergy st) = nat ?S"
      "length (FFTVariance st) = nat ?S" "length (FFTBeatValues st) = nat ?S"
      "length (EnergyHistory st) = nat ?S"
    and rows: "list_all (\<lambda>row. length row = nat ?H) (EnergyHistory st)"
    using assms by (simp_all add: sized_def)
  show ?thesis
  proof (cases "M = []")
    case True
    then show ?thesis
      using subband_loop_empty_spectrum [OF S l(1), of "FFTVariance st" "FFTBeatValues st"]
      by (simp add: UpdateFFT_def)
  next
    case M: False
    show ?thesis
    proof (cases "0 \<le> HistoryPosition st \<and> HistoryPosition st < ?H")
      case True
      then have "well_formed st" using assms by (simp add: well_formed_def)
      then show ?thesis using M True by (simp add: UpdateFFT_eq)
    next
      case False
      let ?sb = "rewrite_from 0 ?S (\<lambda>j _. subband_energy M ?S j) (FFTSubbands st)"
      have first: "subband_loop M ?S 0 (FFTSubbands st, FFTVariance st, FFTBeatValues st)
         = Inr (?sb,
                rewrite_from 0 ?S (\<lambda>j old. accumulated_variance M ?S old j) (FFTVariance st),
                rewrite_from 0 ?S
                  (\<lambda>j _. beat_value (accumulated_variance M ?S (FFTVariance st ! nat j) j))
                  (FFTBeatValues st))"
        using subband_loop_eq [of 0 ?S "FFTSubbands st" "FFTVariance st" "FFTBeatValues st" M]
          S l M by simp
      have second: "average_loop (EnergyHistory st) ?H ?S 0 (FFTAverageEnergy st)
         = Inr (rewrite_from 0 ?S (\<lambda>j _. sum_list (EnergyHistory st ! nat j) / real_of_int ?H)
                 (FFTAverageEnergy st))"
        using average_loop_eq [of 0 ?S "FFTAverageEnergy st" "EnergyHistory st" ?H]
          S H l rows by simp
      have row0: "length (EnergyHistory st ! 0) = nat ?H"
        using rows l(5) S by (simp add: list_all_length)
      have third: "store_loop ?sb (HistoryPosition st) ?S 0 (EnergyHistory st)
         = Inl IndexOutOfRange"
        using False row0 H S l
        by (intro store_loop_outside) simp_all
      show ?thesis
        using M False
        by (simp add: UpdateFFT_def first second third)
    qed
  qed
qed

lemma UpdateFFT_keeps_sized:
  assumes "sized st0" "UpdateFFT st0 M = Inr st"
  shows "sized st"
proof -
  have "st = updated st0 M"
    and "0 \<le> HistoryPosition st0 \<and> HistoryPosition st0 < EnergyHistorySize st0"
    using UpdateFFT_sized [OF assms(1), of M] assms(2) by (auto split: if_splits)
  then show ?thesis using assms(1) by (simp add: sized_updated)
qed

text \<open>
  Every sub-band has \<open>floor(len / S)\<close> bins. When \<open>S\<close> divides \<open>len\<close>, the factor
  \<open>S / len\<close> is one over that number: then the stored energy is the mean of the bins, and
  the stored variance is their variance plus what the last call left, scaled.
\<close>

lemma length_subband_bins:
  assumes "0 \<le> s" "s < S"
  shows "length (subband_bins M S s) = nat (Num M div S)"
proof -
  let ?k = "Num M div S"
  have "s * ?k + ?k \<le> Num M" "0 \<le> s * ?k" "0 \<le> ?k"
    using bins_fit [OF assms, of "Num M"] by (simp_all add: Num_def)
  then have "nat (s * ?k) + nat ?k \<le> length M"
    by (simp add: Num_def nat_add_distrib [symmetric] nat_le_iff)
  then show ?thesis
    by (simp add: subband_bins_def)
qed

lemma factor_reciprocal:
  assumes "0 < S" "M \<noteq> []" "S dvd Num M"
  shows "real_of_int S / real_of_int (Num M) = 1 / real_of_int (Num M div S)"
    and "0 < Num M div S"
proof -
  have len: "0 < Num M" using assms(2) by (simp add: Num_def)
  have Sk: "Num M = S * (Num M div S)" using assms(3) by simp
  show k: "0 < Num M div S"
    using assms(1) len Sk by (metis zero_less_mult_pos)
  have "real_of_int (Num M) = real_of_int S * real_of_int (Num M div S)"
    using Sk by (metis of_int_mult)
  then show "real_of_int S / real_of_int (Num M) = 1 / real_of_int (Num M div S)"
    using assms(1) k by simp
qed

lemma subband_energy_mean:
  assumes "0 \<le> s" "s < S" "M \<noteq> []" "S dvd Num M"
  shows "subband_energy M S s = mean (subband_bins M S s)"
proof -
  have S: "0 < S" using assms by simp
  have "real (length (subband_bins M S s)) = real_of_int (Num M div S)"
    using length_subband_bins [OF assms(1,2), of M] factor_reciprocal(2) [OF S assms(3,4)]
    by simp
  then show ?thesis
    by (simp add: subband_energy_def mean_def factor_reciprocal(1) [OF S assms(3,4)])
qed

lemma accumulated_variance_split:
  assumes "0 \<le> s" "s < S" "M \<noteq> []" "S dvd Num M"
  shows "accumulated_variance M S old s
         = old / real_of_int (Num M div S)
           + variance_around (subband_energy M S s) (subband_bins M S s)"
proof -
  have S: "0 < S" using assms by simp
  have l: "real (length (subband_bins M S s)) = real_of_int (Num M div S)"
    using length_subband_bins [OF assms(1,2), of M] factor_reciprocal(2) [OF S assms(3,4)]
    by simp
  show ?thesis
    unfolding accumulated_variance_def variance_around_def l
      factor_reciprocal(1) [OF S assms(3,4)]
    by (simp add: add_divide_distrib)
qed

section \<open>Resizing and creation\<close>

lemma resize_history_loop_eq:
  assumes "0 \<le> s" "s \<le> S" "length history = nat S"
  shows "resize_history_loop history s S H
         = Inr (rewrite_from s S (\<lambda>_ row. SetNum row H 0) history)"
  using assms
proof (induction "nat (S - s)" arbitrary: s history)
  case 0
  then have "S \<le> s" by simp
  then show ?case
    by (subst resize_history_loop.simps) (simp add: rewrite_from_done)
next
  case (Suc n)
  then have lt: "s < S" by simp
  let ?h = "history[nat s := SetNum (history ! nat s) H 0]"
  have g: "get_elem history s = Inr (history ! nat s)"
    using Suc(3,5) lt by (simp add: get_elem_in)
  have w: "\<And>v. set_elem history s v = Inr (history[nat s := v])"
    using Suc(3,5) lt by (simp add: set_elem_in)
  have n: "n = nat (S - (s + 1))" using Suc(2) by simp
  have ih: "resize_history_loop ?h (s + 1) S H
     = Inr (rewrite_from (s + 1) S (\<lambda>_ row. SetNum row H 0) ?h)"
    using Suc(1) [OF n, of ?h] Suc(3,5) lt by simp
  have a: "rewrite_from (s + 1) S (\<lambda>_ row. SetNum row H 0) ?h
         = rewrite_from s S (\<lambda>_ row. SetNum row H 0) history"
    by (rule rewrite_from_step [OF Suc(3) lt]) simp_all
  show ?case
    by (subst resize_history_loop.simps) (simp only: lt if_True g w sum.case ih a)
qed

lemma UpdateEnergyHistorySize_eq:
  assumes "length (EnergyHistory st) = nat (FFTSubbandsSize st)" "0 < n"
  shows "UpdateEnergyHistorySize st n
         = Inr (st\<lparr>EnergyHistorySize := n,
                   EnergyHistory := map (\<lambda>row. SetNum row n 0) (EnergyHistory st)\<rparr>)"
proof (cases "0 \<le> FFTSubbandsSize st")
  case True
  have "resize_history_loop (EnergyHistory st) 0 (FFTSubbandsSize st) n
        = Inr (map (\<lambda>row. SetNum row n 0) (EnergyHistory st))"
    using resize_history_loop_eq [of 0 "FFTSubbandsSize st" "EnergyHistory st" n] True assms(1)
    by (simp add: rewrite_from_map)
  then show ?thesis
    using assms(2) by (simp add: UpdateEnergyHistorySize_def)
next
  case False
  then have "EnergyHistory st = []" using assms(1) by simp
  moreover have "resize_history_loop [] 0 (FFTSubbandsSize st) n = Inr []"
    using False by (subst resize_history_loop.simps) simp
  ultimately show ?thesis
    using assms(2) by (simp add: UpdateEnergyHistorySize_def)
qed

lemma UpdateEnergyHistorySize_invalid: "n \<le> 0 \<Longrightarrow> UpdateEnergyHistorySize st n = Inr st"
  by (simp add: UpdateEnergyHistorySize_def)

lemma UpdateFFTSubbandsSize_invalid: "n \<le> 0 \<Longrightarrow> UpdateFFTSubbandsSize st n = Inr st"
  by (simp add: UpdateFFTSubbandsSize_def)

lemma UpdateFFTSubbandsSize_eq:
  assumes "0 < n"
  shows "UpdateFFTSubbandsSize st n
         = Inr (st\<lparr>FFTSubbandsSize := n,
                   FFTSubbands := SetNum (FFTSubbands st) n 0,
                   FFTAverageEnergy := SetNum (FFTAverageEnergy st) n 0,
                   FFTVariance := SetNum (FFTVariance st) n 0,
                   FFTBeatValues := SetNum (FFTBeatValues st) n 0,
                   EnergyHistory :=
                     (if 0 < EnergyHistorySize st
                      then map (\<lambda>row. SetNum row (EnergyHistorySize st) 0)
                             (SetNum (EnergyHistory st) n [])
                      else SetNum (EnergyHistory st) n [])\<rparr>)"
proof (cases "0 < EnergyHistorySize st")
  case True
  show ?thesis
    using assms True
    by (simp add: UpdateFFTSubbandsSize_def UpdateEnergyHistorySize_eq)
next
  case False
  then show ?thesis
    using assms
    by (simp add: UpdateFFTSubbandsSize_def UpdateEnergyHistorySize_invalid)
qed

lemma CreateBeatDetection_eq:
  assumes "0 < s" "0 < h"
  shows "CreateBeatDetection s h
         = Inr \<lparr>HistoryPosition = 0, FFTSubbandsSize = s, EnergyHistorySize = h,
                FFTSubbands = replicate (nat s) 0, FFTAverageEnergy = replicate (nat s) 0,
                FFTVariance = replicate (nat s) 0, FFTBeatValues = replicate (nat s) 0,
                EnergyHistory = replicate (nat s) (replicate (nat h) 0)\<rparr>"
  using assms
  by (simp add: CreateBeatDetection_def UpdateFFTSubbandsSize_eq NewBeatDetection_def SetNum_def)

lemma CreateBeatDetection_no_subbands:
  "s \<le> 0 \<Longrightarrow> CreateBeatDetection s h = Inr (NewBeatDetection\<lparr>EnergyHistorySize := h\<rparr>)"
  by (simp add: CreateBeatDetection_def UpdateFFTSubbandsSize_invalid)

lemma CreateBeatDetection_no_history:
  assumes "0 < s" "h \<le> 0"
  shows "CreateBeatDetection s h
         = Inr \<lparr>HistoryPosition = 0, FFTSubbandsSize = s, EnergyHistorySize = h,
                FFTSubbands = replicate (nat s) 0, FFTAverageEnergy = replicate (nat s) 0,
                FFTVariance = replicate (nat s) 0, FFTBeatValues = replicate (nat s) 0,
                EnergyHistory = replicate (nat s) []\<rparr>"
  using assms
  by (simp add: CreateBeatDetection_def UpdateFFTSubbandsSize_eq NewBeatDetection_def SetNum_def)

lemma sized_UpdateEnergyHistorySize:
  assumes "sized st" "0 < n"
  shows "sized (st\<lparr>EnergyHistorySize := n,
                   EnergyHistory := map (\<lambda>row. SetNum row n 0) (EnergyHistory st)\<rparr>)"
  using assms by (simp add: sized_def list_all_iff)

lemma sized_UpdateFFTSubbandsSize:
  assumes "sized st" "0 < n"
  shows "sized (st\<lparr>FFTSubbandsSize := n,
                   FFTSubbands := SetNum (FFTSubbands st) n 0,
                   FFTAverageEnergy := SetNum (FFTAverageEnergy st) n 0,
                   FFTVariance := SetNum (FFTVariance st) n 0,
                   FFTBeatValues := SetNum (FFTBeatValues st) n 0,
                   EnergyHistory :=
                     map (\<lambda>row. SetNum row (EnergyHistorySize st) 0)
                             (SetNum (EnergyHistory st) n [])\<rparr>)"
  using assms by (simp add: sized_def list_all_iff)

lemma sized_positive: "sized st \<Longrightarrow> 0 < FFTSubbandsSize st \<and> 0 < EnergyHistorySize st"
  by (simp add: sized_def)

lemma UpdateFFTSubbandsSize_sized:
  assumes "sized st0"
  shows "\<exists>st. UpdateFFTSubbandsSize st0 n = Inr st \<and> sized st \<and> (n \<le> 0 \<longrightarrow> st = st0)"
proof (cases "n \<le> 0")
  case True
  then show ?thesis
    using assms by (simp add: UpdateFFTSubbandsSize_invalid)
next
  case False
  then have n: "0 < n" by simp
  have H: "0 < EnergyHistorySize st0" using assms by (simp add: sized_def)
  show ?thesis
    using sized_UpdateFFTSubbandsSize [OF assms n] n H
    by (simp add: UpdateFFTSubbandsSize_eq)
qed

lemma UpdateEnergyHistorySize_sized:
  assumes "sized st0"
  shows "\<exists>st. UpdateEnergyHistorySize st0 n = Inr st \<and> sized st \<and> (n \<le> 0 \<longrightarrow> st = st0)"
proof (cases "n \<le> 0")
  case True
  then show ?thesis
    using assms by (simp add: UpdateEnergyHistorySize_invalid)
next
  case False
  then have n: "0 < n" by simp
  have l: "length (EnergyHistory st0) = nat (FFTSubbandsSize st0)"
    using assms by (simp add: sized_def)
  show ?thesis
    using sized_UpdateEnergyHistorySize [OF assms n] n
    by (simp add: UpdateEnergyHistorySize_eq [OF l n])
qed

lemma create_1_1:
  "CreateBeatDetection 1 1
   = Inr \<lparr>HistoryPosition = 0, FFTSubbandsSize = 1, EnergyHistorySize = 1,
          FFTSubbands = [0], FFTAverageEnergy = [0], FFTVariance = [0], FFTBeatValues = [0],
          EnergyHistory = [[0]]\<rparr>"
  using CreateBeatDetection_eq [of 1 1] by simp

lemma create_2_1:
  "CreateBeatDetection 2 1
   = Inr \<lparr>HistoryPosition = 0, FFTSubbandsSize = 2, EnergyHistorySize = 1,
          FFTSubbands = [0, 0], FFTAverageEnergy = [0, 0], FFTVariance = [0, 0],
          FFTBeatValues = [0, 0], EnergyHistory = [[0], [0]]\<rparr>"
  using CreateBeatDetection_eq [of 2 1] by (simp add: numeral_2_eq_2)

lemma create_4_2: "CreateBeatDetection 4 2 = Inr fresh_4_2"
  using CreateBeatDetection_eq [of 4 2]
  by (simp add: fresh_4_2_def numeral_eq_Suc)

lemma well_formed_fresh_4_2: "well_formed fresh_4_2"
  by (simp add: well_formed_def sized_def fresh_4_2_def)

lemma played_1_2_reached:
  "andThen (CreateBeatDetection 1 2) (\<lambda>st. UpdateFFT st [1]) = Inr played_1_2"
proof -
  let ?st0 = "\<lparr>HistoryPosition = 0, FFTSubbandsSize = 1, EnergyHistorySize = 2,
          FFTSubbands = [0], FFTAverageEnergy = [0], FFTVariance = [0], FFTBeatValues = [0],
          EnergyHistory = [[0, 0::real]]\<rparr>"
  have c: "CreateBeatDetection 1 2 = Inr ?st0"
    using CreateBeatDetection_eq [of 1 2] by (simp add: numeral_2_eq_2)
  have wf: "well_formed ?st0"
    by (simp add: well_formed_def sized_def)
  have bins: "subband_bins [1] 1 0 = [1]"
    by (simp add: subband_bins_def Num_def)
  have e: "subband_energy [1] 1 0 = 1"
    by (simp add: subband_energy_def bins Num_def)
  have v: "accumulated_variance [1] 1 0 0 = 0"
    by (simp add: accumulated_variance_def bins e Num_def)
  have one: "updated ?st0 [1] = played_1_2"
    by (simp add: updated_def e v played_1_2_def)
  have run: "UpdateFFT ?st0 [1] = Inr (updated ?st0 [1])"
    using wf by (intro UpdateFFT_eq) simp_all
  show ?thesis
    by (simp only: c andThen_def sum.case run one)
qed

lemma sized_played_1_2: "sized played_1_2"
  by (simp add: sized_def played_1_2_def)

section \<open>Queries\<close>

lemma IsBeat_in_range:
  assumes "0 \<le> b" "b < FFTSubbandsSize st"
    and "length (FFTSubbands st) = nat (FFTSubbandsSize st)"
    and "length (FFTAverageEnergy st) = nat (FFTSubbandsSize st)"
    and "length (FFTBeatValues st) = nat (FFTSubbandsSize st)"
  shows "IsBeat st b
         = Inr (FFTSubbands st ! nat b > FFTAverageEnergy st ! nat b * FFTBeatValues st ! nat b)"
  using assms by (simp add: IsBeat_def get_elem_in)

lemma IsBeat_above: "FFTSubbandsSize st \<le> b \<Longrightarrow> IsBeat st b = Inr False"
  by (simp add: IsBeat_def)

lemma IsBeat_negative:
  assumes "b < 0" "b < FFTSubbandsSize st"
  shows "IsBeat st b = Inl IndexOutOfRange"
  using assms by (simp add: IsBeat_def get_elem_def)

lemma count_beats_eq:
  assumes "0 \<le> i" "high < FFTSubbandsSize st"
    and "length (FFTSubbands st) = nat (FFTSubbandsSize st)"
    and "length (FFTAverageEnergy st) = nat (FFTSubbandsSize st)"
    and "length (FFTBeatValues st) = nat (FFTSubbandsSize st)"
  shows "count_beats st i high n
         = Inr (n + int (length (filter (\<lambda>s. IsBeat st s = Inr True) [i..high])))"
  using assms(1)
proof (induction "nat (high + 1 - i)" arbitrary: i n)
  case 0
  then have "\<not> i < high + 1" by simp
  then show ?case
    by (subst count_beats.simps) simp
next
  case (Suc k)
  then have lt: "i < high + 1" by simp
  let ?b = "FFTSubbands st ! nat i > FFTAverageEnergy st ! nat i * FFTBeatValues st ! nat i"
  have b: "IsBeat st i = Inr ?b"
    using IsBeat_in_range [of i st] Suc(3) lt assms(2-5) by simp
  have k: "k = nat (high + 1 - (i + 1))" using Suc(2) by simp
  have ih: "\<And>m. count_beats st (i + 1) high m
     = Inr (m + int (length (filter (\<lambda>s. IsBeat st s = Inr True) [i + 1..high])))"
    using Suc(1) [OF k] Suc(3) by simp
  have up: "[i..high] = i # [i + 1..high]"
    using lt by (simp add: upto_rec1)
  have le: "i \<le> high" using lt by simp
  show ?case
    by (subst count_beats.simps) (simp add: lt le b ih up)
qed

lemma IsBeatRange_eq:
  assumes "length (FFTSubbands st) = nat (FFTSubbandsSize st)"
    and "length (FFTAverageEnergy st) = nat (FFTSubbandsSize st)"
    and "length (FFTBeatValues st) = nat (FFTSubbandsSize st)"
  shows "IsBeatRange st Low High Threshold =
           Inr (0 \<le> Low \<and> Low < FFTSubbandsSize st \<and> 0 \<le> High \<and> High < FFTSubbandsSize st
                \<and> Low < High
                \<and> Threshold < int (length (filter (\<lambda>s. IsBeat st s = Inr True) [Low..High])))"
proof (cases "0 \<le> Low \<and> Low < FFTSubbandsSize st \<and> 0 \<le> High \<and> High < FFTSubbandsSize st
                \<and> Low < High")
  case True
  then show ?thesis
    using count_beats_eq [of Low High st 0] assms
    by (simp add: IsBeatRange_def)
next
  case False
  then show ?thesis
    by (auto simp: IsBeatRange_def)
qed

section \<open>Repeated updates with one spectrum\<close>

lemma repeat_update_eq:
  assumes "well_formed st" "M \<noteq> []"
  shows "repeat_update n M st = Inr (updated_times n M st)"
  using assms(1)
proof (induction n arbitrary: st)
  case 0
  then show ?case by simp
next
  case (Suc n)
  have wf: "well_formed (updated st M)"
    using Suc(2) by (rule well_formed_updated)
  show ?case
    using Suc(1) [OF wf] UpdateFFT_eq [OF Suc(2) assms(2)] by simp
qed

lemma updated_times_Suc:
  "updated_times (Suc n) M st = updated (updated_times n M st) M"
  by (induction n arbitrary: st) simp_all

lemma well_formed_updated_times:
  "well_formed st \<Longrightarrow> well_formed (updated_times n M st)"
  by (induction n arbitrary: st) (simp_all add: well_formed_updated)

lemma updated_times_sizes [simp]:
  "FFTSubbandsSize (updated_times n M st) = FFTSubbandsSize st"
  "EnergyHistorySize (updated_times n M st) = EnergyHistorySize st"
  by (induction n arbitrary: st) simp_all

text \<open>With two history entries, two updates fill both.\<close>

lemma two_updates_fill:
  assumes wf: "well_formed st" and H: "EnergyHistorySize st = 2"
    and s: "0 \<le> s" "s < FFTSubbandsSize st"
  shows "EnergyHistory (updated (updated st M) M) ! nat s
         = [subband_energy M (FFTSubbandsSize st) s, subband_energy M (FFTSubbandsSize st) s]"
proof -
  let ?e = "subband_energy M (FFTSubbandsSize st) s"
  let ?row = "EnergyHistory st ! nat s"
  have "length ?row = 2"
    using wf H s by (simp add: well_formed_def sized_def list_all_length)
  then obtain a b where row: "?row = [a, b]"
    by (metis (no_types, lifting) length_0_conv length_Suc_conv numeral_2_eq_2)
  have pos: "HistoryPosition st = 0 \<or> HistoryPosition st = 1"
    using wf H by (auto simp: well_formed_def)
  have "EnergyHistory (updated (updated st M) M) ! nat s
        = ?row[nat (HistoryPosition st) := ?e, nat ((HistoryPosition st + 1) mod 2) := ?e]"
    using s H by (simp add: updated_nth)
  then show ?thesis
    using pos row by auto
qed

lemma settled_two_updates:
  assumes "well_formed st" "EnergyHistorySize st = 2"
  shows "settled M (updated (updated st M) M)"
  unfolding settled_def
proof (intro conjI allI impI)
  show "well_formed (updated (updated st M) M)"
    using assms(1) by (intro well_formed_updated)
  show "EnergyHistorySize (updated (updated st M) M) = 2"
    using assms(2) by simp
  fix j assume "j < nat (FFTSubbandsSize (updated (updated st M) M))"
  then have j: "0 \<le> int j" "int j < FFTSubbandsSize st" by simp_all
  show "EnergyHistory (updated (updated st M) M) ! j
        = [subband_energy M (FFTSubbandsSize (updated (updated st M) M)) (int j),
           subband_energy M (FFTSubbandsSize (updated (updated st M) M)) (int j)]"
    using two_updates_fill [OF assms j, of M] by simp
qed

lemma settled_updated:
  assumes "settled M st"
  shows "settled M (updated st M)"
  unfolding settled_def
proof (intro conjI allI impI)
  have wf: "well_formed st" and H: "EnergyHistorySize st = 2"
    using assms by (simp_all add: settled_def)
  show "well_formed (updated st M)" using wf by (rule well_formed_updated)
  show "EnergyHistorySize (updated st M) = 2" using H by simp
  fix j assume "j < nat (FFTSubbandsSize (updated st M))"
  then have j: "j < nat (FFTSubbandsSize st)" by simp
  then have j': "0 \<le> int j" "int j < FFTSubbandsSize st" by simp_all
  have row: "EnergyHistory st ! j
        = [subband_energy M (FFTSubbandsSize st) (int j),
           subband_energy M (FFTSubbandsSize st) (int j)]"
    using assms j by (simp add: settled_def)
  have pos: "HistoryPosition st = 0 \<or> HistoryPosition st = 1"
    using wf H by (auto simp: well_formed_def)
  have "EnergyHistory (updated st M) ! j
        = (EnergyHistory st ! j)[nat (HistoryPosition st)
              := subband_energy M (FFTSubbandsSize st) (int j)]"
    using updated_nth(5) [OF j', of M] by simp
  then show "EnergyHistory (updated st M) ! j
        = [subband_energy M (FFTSubbandsSize (updated st M)) (int j),
           subband_energy M (FFTSubbandsSize (updated st M)) (int j)]"
    using pos row by auto
qed

lemma settled_updated_times:
  assumes "well_formed st" "EnergyHistorySize st = 2"
  shows "settled M (updated_times (k + 2) M st)"
proof (induction k)
  case 0
  show ?case
    using settled_two_updates [OF assms, of M] by (simp add: numeral_2_eq_2)
next
  case (Suc k)
  then show ?case
    using settled_updated [of M "updated_times (k + 2) M st"]
    by (simp only: add_Suc updated_times_Suc)
qed

lemma settled_average:
  assumes "settled M st" "0 \<le> s" "s < FFTSubbandsSize st"
  shows "FFTAverageEnergy (updated st M) ! nat s = subband_energy M (FFTSubbandsSize st) s"
proof -
  have "EnergyHistory st ! nat s
        = [subband_energy M (FFTSubbandsSize st) s, subband_energy M (FFTSubbandsSize st) s]"
    using assms by (simp add: settled_def)
  moreover have "EnergyHistorySize st = 2" using assms(1) by (simp add: settled_def)
  ultimately show ?thesis
    using assms(2,3) by (simp add: updated_nth)
qed

lemma steady_state:
  assumes wf: "well_formed st" and H: "EnergyHistorySize st = 2"
    and M: "M \<noteq> []" and n: "3 \<le> n" and s: "0 \<le> s" "s < FFTSubbandsSize st"
  shows "repeat_update n M st = Inr (updated_times n M st)"
    and "well_formed (updated_times n M st)"
    and "FFTSubbands (updated_times n M st) ! nat s = subband_energy M (FFTSubbandsSize st) s"
    and "FFTAverageEnergy (updated_times n M st) ! nat s
         = subband_energy M (FFTSubbandsSize st) s"
proof -
  obtain k where k: "n = Suc (k + 2)"
    using n by (metis add_2_eq_Suc' le_Suc_ex numeral_3_eq_3 add.commute add_Suc_right)
  let ?stk = "updated_times (k + 2) M st"
  have sk: "settled M ?stk" using wf H by (rule settled_updated_times)
  have eq: "updated_times n M st = updated ?stk M"
    unfolding k by (rule updated_times_Suc)
  show "repeat_update n M st = Inr (updated_times n M st)"
    using wf M by (rule repeat_update_eq)
  show "well_formed (updated_times n M st)"
    using wf by (rule well_formed_updated_times)
  have size: "FFTSubbandsSize ?stk = FFTSubbandsSize st" by simp
  show "FFTSubbands (updated_times n M st) ! nat s = subband_energy M (FFTSubbandsSize st) s"
    unfolding eq using updated_nth(1) [of s ?stk M] s size by simp
  show "FFTAverageEnergy (updated_times n M st) ! nat s
         = subband_energy M (FFTSubbandsSize st) s"
    unfolding eq using settled_average [OF sk, of s] s size by simp
qed

lemma three_flat_updates:
  "repeat_update 3 [1, 1, 1, 1] fresh_4_2
   = Inr \<lparr>HistoryPosition = 1, FFTSubbandsSize = 4, EnergyHistorySize = 2,
          FFTSubbands = [1, 1, 1, 1], FFTAverageEnergy = [1, 1, 1, 1],
          FFTVariance = [0, 0, 0, 0],
          FFTBeatValues = [beat_value 0, beat_value 0, beat_value 0, beat_value 0],
          EnergyHistory = [[1, 1], [1, 1], [1, 1], [1, 1]]\<rparr>"
proof -
  let ?M = "[1, 1, 1, 1 :: real]"
  have e: "subband_energy ?M 4 0 = 1" "subband_energy ?M 4 1 = 1"
    "subband_energy ?M 4 2 = 1" "subband_energy ?M 4 3 = 1"
    by (simp_all add: subband_energy_def subband_bins_def Num_def)
  have v: "accumulated_variance ?M 4 0 0 = 0" "accumulated_variance ?M 4 0 1 = 0"
    "accumulated_variance ?M 4 0 2 = 0" "accumulated_variance ?M 4 0 3 = 0"
    by (simp_all add: accumulated_variance_def e) (simp_all add: subband_bins_def Num_def)
  have up: "[0..<4] = [0, Suc 0, 2, 3]"
    by (simp add: numeral_eq_Suc)
  have run: "repeat_update 3 ?M fresh_4_2 = Inr (updated_times 3 ?M fresh_4_2)"
    using well_formed_fresh_4_2 by (intro repeat_update_eq) simp_all
  have one: "updated fresh_4_2 ?M
     = \<lparr>HistoryPosition = 1, FFTSubbandsSize = 4, EnergyHistorySize = 2,
          FFTSubbands = [1, 1, 1, 1], FFTAverageEnergy = [0, 0, 0, 0],
          FFTVariance = [0, 0, 0, 0],
          FFTBeatValues = [beat_value 0, beat_value 0, beat_value 0, beat_value 0],
          EnergyHistory = [[1, 0], [1, 0], [1, 0], [1, 0]]\<rparr>"
    by (simp add: updated_def fresh_4_2_def up e v)
  have two: "updated (updated fresh_4_2 ?M) ?M
     = \<lparr>HistoryPosition = 0, FFTSubbandsSize = 4, EnergyHistorySize = 2,
          FFTSubbands = [1, 1, 1, 1], FFTAverageEnergy = [1 / 2, 1 / 2, 1 / 2, 1 / 2],
          FFTVariance = [0, 0, 0, 0],
          FFTBeatValues = [beat_value 0, beat_value 0, beat_value 0, beat_value 0],
          EnergyHistory = [[1, 1], [1, 1], [1, 1], [1, 1]]\<rparr>"
    unfolding one by (simp add: updated_def up e v)
  have three: "updated (updated (updated fresh_4_2 ?M) ?M) ?M
     = \<lparr>HistoryPosition = 1, FFTSubbandsSize = 4, EnergyHistorySize = 2,
          FFTSubbands = [1, 1, 1, 1], FFTAverageEnergy = [1, 1, 1, 1],
          FFTVariance = [0, 0, 0, 0],
          FFTBeatValues = [beat_value 0, beat_value 0, beat_value 0, beat_value 0],
          EnergyHistory = [[1, 1], [1, 1], [1, 1], [1, 1]]\<rparr>"
    unfolding two by (simp add: updated_def up e v)
  show ?thesis
    unfolding run by (simp add: numeral_3_eq_3 three)
qed

text \<open>
  The spectrum \<open>loud_bin\<close>: the first sub-band keeps a large variance, a negative
  coefficient and so a beat.
\<close>

lemma loud_energy: "subband_energy loud_bin 4 0 = 50"
  by (simp add: subband_energy_def subband_bins_def loud_bin_def Num_def)

lemma loud_variance: "accumulated_variance loud_bin 4 old 0 = (old + 5000) / 2"
  by (simp add: accumulated_variance_def subband_energy_def subband_bins_def loud_bin_def Num_def)

lemma loud_step:
  assumes "loud_invariant st"
  shows "loud_invariant (updated st loud_bin)"
    and "IsBeat (updated st loud_bin) 0 = Inr True"
proof -
  let ?st = "updated st loud_bin"
  have wf: "well_formed st" and S: "FFTSubbandsSize st = 4" and H: "EnergyHistorySize st = 2"
    and v: "0 \<le> FFTVariance st ! 0" and h: "list_all (\<lambda>x. 0 \<le> x) (EnergyHistory st ! 0)"
    using assms by (simp_all add: loud_invariant_def)
  have wf': "well_formed ?st" using wf by (rule well_formed_updated)
  have e: "FFTSubbands ?st ! 0 = 50"
    using updated_nth(1) [of 0 st loud_bin] S by (simp add: loud_energy)
  have var: "FFTVariance ?st ! 0 = (FFTVariance st ! 0 + 5000) / 2"
    using updated_nth(2) [of 0 st loud_bin] S by (simp add: loud_variance)
  have b: "FFTBeatValues ?st ! 0 = beat_value ((FFTVariance st ! 0 + 5000) / 2)"
    using updated_nth(3) [of 0 st loud_bin] S by (simp add: loud_variance)
  have bneg: "FFTBeatValues ?st ! 0 < 0"
    using v unfolding b beat_value_def by simp
  have "0 \<le> sum_list (EnergyHistory st ! 0)"
    using h by (intro sum_list_nonneg) (simp add: list_all_iff)
  then have avg: "0 \<le> FFTAverageEnergy ?st ! 0"
    using updated_nth(4) [of 0 st loud_bin] S H by simp
  have prod: "FFTAverageEnergy ?st ! 0 * FFTBeatValues ?st ! 0 \<le> 0"
    using avg bneg by (simp add: mult_nonneg_nonpos)
  have row: "EnergyHistory ?st ! 0 = (EnergyHistory st ! 0)[nat (HistoryPosition st) := 50]"
    using updated_nth(5) [of 0 st loud_bin] S by (simp add: loud_energy)
  have h': "list_all (\<lambda>x. 0 \<le> x) (EnergyHistory ?st ! 0)"
    unfolding row list_all_iff
    using h set_update_subset_insert [of "EnergyHistory st ! 0" "nat (HistoryPosition st)" 50]
    by (auto simp: list_all_iff)
  show "loud_invariant ?st"
    using wf' S H var v h' by (simp add: loud_invariant_def)
  have len: "length (FFTSubbands ?st) = nat (FFTSubbandsSize ?st)"
    "length (FFTAverageEnergy ?st) = nat (FFTSubbandsSize ?st)"
    "length (FFTBeatValues ?st) = nat (FFTSubbandsSize ?st)"
    using wf' by (simp_all add: well_formed_def sized_def)
  show "IsBeat ?st 0 = Inr True"
    using IsBeat_in_range [of 0 ?st, OF _ _ len] S e prod by simp
qed

lemma loud_invariant_fresh: "loud_invariant fresh_4_2"
  using well_formed_fresh_4_2 by (simp add: loud_invariant_def) (simp add: fresh_4_2_def)

lemma loud_invariant_times:
  "loud_invariant st \<Longrightarrow> loud_invariant (updated_times n loud_bin st)"
  by (induction n arbitrary: st) (simp_all add: loud_step(1))

lemma loud_always_beat:
  "repeat_update (Suc n) loud_bin fresh_4_2 = Inr (updated_times (Suc n) loud_bin fresh_4_2)
   \<and> IsBeat (updated_times (Suc n) loud_bin fresh_4_2) 0 = Inr True"
proof -
  have "loud_bin \<noteq> []" by (simp add: loud_bin_def)
  then have run: "repeat_update (Suc n) loud_bin fresh_4_2
        = Inr (updated_times (Suc n) loud_bin fresh_4_2)"
    using well_formed_fresh_4_2 by (intro repeat_update_eq)
  have inv: "loud_invariant (updated_times n loud_bin fresh_4_2)"
    using loud_invariant_fresh by (rule loud_invariant_times)
  have "IsBeat (updated (updated_times n loud_bin fresh_4_2) loud_bin) 0 = Inr True"
    using inv by (rule loud_step(2))
  then show ?thesis
    using run by (simp only: updated_times_Suc)
qed

section \<open>Rounding to binary32: results\<close>

text \<open>The number of binary digits, between two powers of two.\<close>

lemma bit_length_le: "n < 2 ^ k \<Longrightarrow> bit_length n \<le> k"
proof (induction n arbitrary: k rule: bit_length.induct)
  case (1 n)
  show ?case
  proof (cases "n = 0")
    case True
    then show ?thesis by (simp add: bit_length.simps)
  next
    case False
    then obtain k' where k: "k = Suc k'"
      using 1(2) by (cases k) auto
    have "n div 2 < 2 ^ k'" using 1(2) k by auto
    then have "bit_length (n div 2) \<le> k'" using 1(1) [OF False] by simp
    then show ?thesis using False k by (subst bit_length.simps) simp
  qed
qed

lemma bit_length_gt: "2 ^ k \<le> n \<Longrightarrow> k < bit_length n"
proof (induction n arbitrary: k rule: bit_length.induct)
  case (1 n)
  have n0: "n \<noteq> 0" using 1(2) by (metis not_less_eq_eq one_le_numeral one_le_power le_zero_eq not_one_le_zero)
  show ?case
  proof (cases k)
    case 0
    then show ?thesis using n0 by (subst bit_length.simps) simp
  next
    case (Suc k')
    then have "2 ^ k' \<le> n div 2" using 1(2) by auto
    then have "k' < bit_length (n div 2)" using 1(1) [OF n0] by simp
    then show ?thesis using n0 Suc by (subst bit_length.simps) simp
  qed
qed

lemma bit_length_eq: "2 ^ k \<le> n \<Longrightarrow> n < 2 ^ Suc k \<Longrightarrow> bit_length n = Suc k"
  using bit_length_le [of n "Suc k"] bit_length_gt [of k n] by simp

text \<open>
  A binary32 number rounds to itself; so do zero and the integers below \<open>2 ^ 24\<close>.
\<close>

lemma nearest_even_of_int [simp]: "nearest_even (of_int z) = z"
  by (simp add: nearest_even_def)

lemma round32_exact:
  assumes x: "x = of_int m * 2 ^ j / 2 ^ 149" and m: "\<bar>m\<bar> < 2 ^ 24" and fin: "\<bar>x\<bar> < 2 ^ 128"
  shows "round32 x = Inr x"
proof -
  let ?M = "\<bar>m\<bar> * 2 ^ j"
  define u :: real where "u = 2 ^ 149"
  have u: "0 < u" by (simp add: u_def)
  have xu: "x = of_int m * 2 ^ j / u" using x by (simp only: u_def)
  have "\<bar>x\<bar> * u = of_int ?M"
    unfolding xu using u by (simp add: abs_mult)
  then have fl: "nat \<lfloor>\<bar>x\<bar> * u\<rfloor> = nat ?M"
    by (metis floor_of_int)
  have "?M < 2 ^ 24 * 2 ^ j" using m by simp
  then have "nat ?M < 2 ^ (24 + j)"
    by (simp add: power_add nat_less_iff)
  then have b: "bit_length (nat ?M) \<le> 24 + j" by (rule bit_length_le)
  define k where "k = bit_length (nat ?M) - 24"
  have kj: "k \<le> j" using b by (simp add: k_def)
  have ulp: "ulp32 x = 2 ^ k / u"
    unfolding ulp32_def u_def [symmetric] fl k_def ..
  have pw: "(2::real) ^ j = 2 ^ (j - k) * 2 ^ k"
    using kj by (simp add: power_add [symmetric])
  have "of_int m * 2 ^ j / u / (2 ^ k / u) = of_int (m * 2 ^ (j - k))"
    using u by (simp add: pw)
  then have "x / (2 ^ k / u) = of_int (m * 2 ^ (j - k))"
    by (simp only: xu)
  then have q: "x / ulp32 x = of_int (m * 2 ^ (j - k))"
    by (simp only: ulp)
  have "of_int (m * 2 ^ (j - k)) * ulp32 x = of_int (m * 2 ^ (j - k)) * (2 ^ k / u)"
    by (simp only: ulp)
  also have "\<dots> = of_int m * 2 ^ j / u"
    using u by (simp add: pw)
  also have "\<dots> = x"
    by (simp only: xu)
  finally have "of_int (m * 2 ^ (j - k)) * ulp32 x = x" .
  then have r: "of_int (nearest_even (x / ulp32 x)) * ulp32 x = x"
    by (simp only: q nearest_even_of_int)
  show ?thesis
    unfolding round32_def Let_def r using fin by simp
qed

lemma round32_0: "round32 0 = Inr 0"
  using round32_exact [of 0 0 0] by simp

lemma round32_int:
  assumes "\<bar>m\<bar> < 2 ^ 24"
  shows "round32 (of_int m) = Inr (of_int m)"
proof -
  have "\<bar>of_int m :: real\<bar> < 2 ^ 24" using assms
    by (metis of_int_abs of_int_less_numeral_power_cancel_iff)
  then have "\<bar>of_int m :: real\<bar> < 2 ^ 128"
    by (rule less_trans) simp
  then show ?thesis
    using round32_exact [of "of_int m" m 149] assms by simp
qed

text \<open>
  Rounding a number between two powers of two, from the multiple of the distance that is
  nearest to it; a power of two from \<open>2 ^ 128\<close> on overflows, and a number below half of
  the least subnormal number rounds to zero.
\<close>

lemma nearest_even_between:
  assumes "of_int m - 1 / 2 < q" "q < of_int m + 1 / 2"
  shows "nearest_even q = m"
proof (cases "of_int m \<le> q")
  case True
  then have f: "\<lfloor>q\<rfloor> = m" using assms(2) by (simp add: floor_eq_iff)
  show ?thesis using assms(2) by (simp add: nearest_even_def f Let_def)
next
  case False
  then have f: "\<lfloor>q\<rfloor> = m - 1" using assms(1) by (simp add: floor_eq_iff)
  show ?thesis using assms(1) False by (simp add: nearest_even_def f Let_def)
qed

lemma round32_normal:
  assumes b: "24 \<le> b"
    and lo: "2 ^ (b - 1) \<le> \<bar>x\<bar> * 2 ^ 149" and hi: "\<bar>x\<bar> * 2 ^ 149 < 2 ^ b"
    and near: "nearest_even (x * 2 ^ 149 / 2 ^ (b - 24)) = m"
    and fin: "\<bar>of_int m * 2 ^ (b - 24) / 2 ^ 149 :: real\<bar> < 2 ^ 128"
  shows "round32 x = Inr (of_int m * 2 ^ (b - 24) / 2 ^ 149)"
proof -
  define u :: real where "u = 2 ^ 149"
  have u: "0 < u" by (simp add: u_def)
  let ?n = "nat \<lfloor>\<bar>x\<bar> * u\<rfloor>"
  have b1: "Suc (b - 1) = b" using b by simp
  have "(2::real) ^ (b - 1) = of_int (2 ^ (b - 1))" by simp
  then have "2 ^ (b - 1) \<le> \<lfloor>\<bar>x\<bar> * u\<rfloor>"
    using lo unfolding u_def [symmetric] by (simp add: le_floor_iff)
  then have l: "2 ^ (b - 1) \<le> ?n"
    by (simp add: le_nat_iff)
  have "(2::real) ^ b = of_int (2 ^ b)" by simp
  then have "\<lfloor>\<bar>x\<bar> * u\<rfloor> < 2 ^ b"
    using hi unfolding u_def [symmetric] by (simp add: floor_less_iff)
  then have h: "?n < 2 ^ Suc (b - 1)"
    unfolding b1 by (simp add: nat_less_iff)
  have bl: "bit_length ?n = b"
    using bit_length_eq [OF l h] b1 by simp
  have ulp: "ulp32 x = 2 ^ (b - 24) / u"
    unfolding ulp32_def u_def [symmetric] bl ..
  have "x / (2 ^ (b - 24) / u) = x * u / 2 ^ (b - 24)" by simp
  then have n: "nearest_even (x / (2 ^ (b - 24) / u)) = m"
    using near unfolding u_def [symmetric] by simp
  show ?thesis
    unfolding round32_def Let_def ulp n using fin unfolding u_def [symmetric]
    by (simp add: not_le [symmetric])
qed

lemma round32_overflow:
  assumes "128 \<le> n"
  shows "round32 (2 ^ n) = Inl FloatNotFinite"
proof -
  define u :: real where "u = 2 ^ 149"
  have u: "0 < u" by (simp add: u_def)
  have "\<bar>2 ^ n :: real\<bar> * u = of_int (2 ^ (n + 149))"
    by (simp add: u_def power_add)
  then have "\<lfloor>\<bar>2 ^ n :: real\<bar> * u\<rfloor> = 2 ^ (n + 149)"
    by (metis floor_of_int)
  then have fl: "nat \<lfloor>\<bar>2 ^ n :: real\<bar> * u\<rfloor> = 2 ^ (n + 149)"
    by (simp add: nat_power_eq)
  have b: "bit_length (2 ^ (n + 149)) = Suc (n + 149)"
    by (rule bit_length_eq) simp_all
  have k: "Suc (n + 149) - 24 = n + 126" by simp
  have ulp: "ulp32 (2 ^ n) = 2 ^ (n + 126) / u"
    unfolding ulp32_def u_def [symmetric] fl b k ..
  have "(2::real) ^ n / (2 ^ (n + 126) / u) = of_int (2 ^ 23)"
    using u by (simp add: power_add u_def)
  then have near: "nearest_even (2 ^ n / (2 ^ (n + 126) / u)) = 2 ^ 23"
    by (metis nearest_even_of_int)
  have "of_int (2 ^ 23) * (2 ^ (n + 126) / u) = (2::real) ^ n"
    by (simp add: power_add u_def)
  moreover have "(2::real) ^ 128 \<le> 2 ^ n"
    using assms by (intro power_increasing) simp_all
  ultimately have big: "2 ^ 128 \<le> \<bar>of_int (2 ^ 23) * (2 ^ (n + 126) / u)\<bar>"
    by simp
  show ?thesis
    unfolding round32_def Let_def ulp near using big by (simp only: if_True)
qed

lemma round32_underflow:
  assumes "0 \<le> x" "x * 2 ^ 149 < 1 / 2"
  shows "round32 x = Inr 0"
proof -
  define u :: real where "u = 2 ^ 149"
  have q: "0 \<le> x * u" "x * u < 1 / 2"
    using assms by (simp_all add: u_def)
  then have "\<lfloor>x * u\<rfloor> = 0" by (simp add: floor_eq_iff)
  then have fl: "nat \<lfloor>\<bar>x\<bar> * u\<rfloor> = 0" using assms(1) by simp
  have ulp: "ulp32 x = 2 ^ 0 / u"
    unfolding ulp32_def u_def [symmetric] fl by (simp add: bit_length.simps)
  have "x / (2 ^ 0 / u) = x * u" by simp
  moreover have "nearest_even (x * u) = 0"
    using q \<open>\<lfloor>x * u\<rfloor> = 0\<close> by (simp add: nearest_even_def)
  ultimately have near: "nearest_even (x / (2 ^ 0 / u)) = 0" by simp
  show ?thesis
    unfolding round32_def Let_def ulp near by simp
qed

section \<open>Time domain features: results\<close>

lemma sum_squares_replicate:
  assumes "\<forall>k \<le> j + n. round32 (real k * c ^ 2) = Inr (real k * c ^ 2)"
  shows "sum_squares (replicate n c) (real j * c ^ 2) = Inr (real (j + n) * c ^ 2)"
  using assms
proof (induction n arbitrary: j)
  case 0
  then show ?case by simp
next
  case (Suc n)
  have "1 \<le> j + Suc n" by simp
  with Suc(2) have "round32 (real 1 * c ^ 2) = Inr (real 1 * c ^ 2)" by blast
  then have sq: "round32 (c ^ 2) = Inr (c ^ 2)" by simp
  have "real j * c ^ 2 + c ^ 2 = real (Suc j) * c ^ 2"
    by (simp add: algebra_simps)
  moreover have "round32 (real (Suc j) * c ^ 2) = Inr (real (Suc j) * c ^ 2)"
  proof -
    have "Suc j \<le> j + Suc n" by simp
    with Suc(2) show ?thesis by blast
  qed
  ultimately have add: "round32 (real j * c ^ 2 + c ^ 2) = Inr (real (Suc j) * c ^ 2)"
    by simp
  have "sum_squares (replicate n c) (real (Suc j) * c ^ 2) = Inr (real (Suc j + n) * c ^ 2)"
    using Suc(1) [of "Suc j"] Suc(2) by simp
  then show ?case
    by (simp add: sq add)
qed

lemma root_mean_square_exact:
  assumes "0 < N" "round32 \<bar>c\<bar> = Inr \<bar>c\<bar>" "round32 (real N) = Inr (real N)"
    and "\<forall>k \<le> N. round32 (real k * c ^ 2) = Inr (real k * c ^ 2)"
  shows "GetRootMeanSquare (replicate N c) = Inr \<bar>c\<bar>"
proof -
  have s: "sum_squares (replicate N c) 0 = Inr (real N * c ^ 2)"
    using sum_squares_replicate [of 0 N c] assms(4) by simp
  have q: "fdiv (real N * c ^ 2) (real N) = Inr (c ^ 2)"
    using assms(1) by (simp add: fdiv_def)
  have "1 \<le> N" using assms(1) by simp
  with assms(4) have "round32 (real 1 * c ^ 2) = Inr (real 1 * c ^ 2)" by blast
  then have sq: "round32 (c ^ 2) = Inr (c ^ 2)" by simp
  show ?thesis
    by (simp add: GetRootMeanSquare_def s Num_def assms(2,3) q sq)
qed

lemma root_mean_square_overflow:
  assumes "round32 (c ^ 2) = Inl e"
  shows "GetRootMeanSquare [c] = Inl e"
  using assms by (simp add: GetRootMeanSquare_def)

lemma root_mean_square_underflow:
  assumes "round32 (c ^ 2) = Inr 0"
  shows "GetRootMeanSquare [c] = Inr 0"
proof -
  have one: "round32 1 = Inr 1" using round32_int [of 1] by simp
  show ?thesis
    using assms by (simp add: GetRootMeanSquare_def Num_def one fdiv_def round32_0)
qed

text \<open>
  Seven samples of \<open>0.3f\<close>, which is \<open>5033165 / 2 ^ 24\<close>: the seventh sum and the
  quotient round, and the root is the float below \<open>0.3f\<close>.
\<close>

lemma seven_samples:
  "GetRootMeanSquare (replicate 7 (5033165 / 2 ^ 24)) = Inr (10066329 / 2 ^ 25)"
proof -
  define c :: real where "c = 5033165 / 2 ^ 24"
  define sq :: real where "sq = 3019899 / 2 ^ 25"
  define s2 :: real where "s2 = 3019899 / 2 ^ 24"
  define s3 :: real where "s3 = 9059697 / 2 ^ 25"
  define s4 :: real where "s4 = 3019899 / 2 ^ 23"
  define s5 :: real where "s5 = 15099495 / 2 ^ 25"
  define s6 :: real where "s6 = 9059697 / 2 ^ 24"
  define s7 :: real where "s7 = 5284823 / 2 ^ 23"
  define mean :: real where "mean = 12079595 / 2 ^ 27"
  define rms :: real where "rms = 10066329 / 2 ^ 25"
  have r0: "round32 (c ^ 2) = Inr sq"
    using round32_normal [of 146 "c ^ 2" 12079596]
    by (simp add: c_def sq_def nearest_even_def power_divide)
  have r1: "round32 (0 + sq) = Inr sq"
    using round32_exact [of sq 3019899 124] by (simp add: sq_def)
  have r2: "round32 (sq + sq) = Inr s2"
    using round32_exact [of s2 3019899 125] by (simp add: sq_def s2_def)
  have r3: "round32 (s2 + sq) = Inr s3"
    using round32_exact [of s3 9059697 124] by (simp add: sq_def s2_def s3_def)
  have r4: "round32 (s3 + sq) = Inr s4"
    using round32_exact [of s4 3019899 126] by (simp add: sq_def s3_def s4_def)
  have r5: "round32 (s4 + sq) = Inr s5"
    using round32_exact [of s5 15099495 124] by (simp add: sq_def s4_def s5_def)
  have r6: "round32 (s5 + sq) = Inr s6"
    using round32_exact [of s6 9059697 125] by (simp add: sq_def s5_def s6_def)
  have r7: "round32 (s6 + sq) = Inr s7"
    using round32_normal [of 149 "s6 + sq" 10569646]
    by (simp add: sq_def s6_def s7_def nearest_even_def)
  have n: "round32 (real_of_int (Num (replicate 7 c))) = Inr 7"
    using round32_int [of 7] by (simp add: Num_def)
  have d: "fdiv s7 7 = Inr (s7 / 7)"
    by (simp add: fdiv_def)
  have r8: "round32 (s7 / 7) = Inr mean"
    using round32_normal [of 146 "s7 / 7" 12079595]
    by (simp add: s7_def mean_def nearest_even_def)
  have lo: "1 / 4 \<le> sqrt mean"
    by (rule real_le_rsqrt) (simp add: mean_def power_divide)
  have hi: "sqrt mean < 1 / 2"
    by (rule real_less_lsqrt) (simp_all add: mean_def power_divide)
  have near: "nearest_even (sqrt mean * 2 ^ 25) = 10066329"
  proof (rule nearest_even_between)
    have "(20132657 / 2 ^ 26) < sqrt mean"
      by (rule real_less_rsqrt) (simp add: mean_def power_divide)
    then show "of_int 10066329 - 1 / 2 < sqrt mean * 2 ^ 25" by simp
    have "sqrt mean < (20132659 / 2 ^ 26)"
      by (rule real_less_lsqrt) (simp_all add: mean_def power_divide)
    then show "sqrt mean * 2 ^ 25 < of_int 10066329 + 1 / 2" by simp
  qed
  have scale: "sqrt mean * 2 ^ 149 / 2 ^ (148 - 24) = sqrt mean * 2 ^ 25"
    by simp
  have near': "nearest_even (sqrt mean * 2 ^ 149 / 2 ^ (148 - 24)) = 10066329"
    unfolding scale by (rule near)
  have pos: "\<bar>sqrt mean\<bar> = sqrt mean" using lo by simp
  have r9: "round32 (sqrt mean) = Inr rms"
    using round32_normal [of 148 "sqrt mean" 10066329, OF _ _ _ near'] lo hi
    by (simp add: pos rms_def)
  have list: "replicate 7 c = [c, c, c, c, c, c, c]"
    by (simp add: numeral_eq_Suc)
  have sum: "sum_squares (replicate 7 c) 0 = Inr s7"
    unfolding list by (simp only: sum_squares.simps r0 r1 r2 r3 r4 r5 r6 r7 sum.case)
  show ?thesis
    unfolding GetRootMeanSquare_def c_def [symmetric] rms_def [symmetric]
    by (simp only: sum n d r8 r9 sum.case)
qed

lemma peak_loop_replicate:
  "peak_loop (replicate n c) Peak = (if n = 0 \<or> \<bar>c\<bar> \<le> Peak then Peak else \<bar>c\<bar>)"
  by (induction n arbitrary: Peak) (auto simp: Let_def)

lemma zero_crossing_loop_constant:
  assumes "\<forall>j < length xs. xs ! j = c"
  shows "zero_crossing_loop xs i z = z"
  using assms
proof (induction xs i z rule: zero_crossing_loop.induct)
  case (1 xs i z)
  show ?case
  proof (cases "i < length xs")
    case True
    then have same: "xs ! i = c" "xs ! (i - 1) = c"
      using 1(2) by auto
    have "zero_crossing_loop xs (i + 1) z = z"
      using 1(1) [OF True refl refl 1(2)] same by simp
    with True same show ?thesis
      by (subst zero_crossing_loop.simps) (simp add: Let_def)
  next
    case False
    then show ?thesis
      by (subst zero_crossing_loop.simps) simp
  qed
qed

lemma zero_crossing_loop_replicate:
  "zero_crossing_loop (replicate n c) i z = z"
  by (rule zero_crossing_loop_constant [where c = c]) simp

section \<open>The claims\<close>

subsection \<open>Beat detection: \<open>UpdateFFT\<close>\<close>

text \<open>
  C1. \<open>FFTVariance[s]\<close> is not the variance of the current bins: the loop adds the
  squared deviations to what the last call stored and never resets it. One detector of one
  sub-band, the spectrum \<open>[1, 3]\<close> twice: the first call stores the variance \<open>1\<close>, the
  second call stores \<open>(1 + 2) / 2 = 3 / 2\<close>, while the variance of the bins around
  their average \<open>2\<close> is still \<open>1\<close>.
\<close>

theorem variance_accumulates:
  "andThen (CreateBeatDetection 1 1) (repeat_update 1 [1, 3])
     = Inr \<lparr>HistoryPosition = 0, FFTSubbandsSize = 1, EnergyHistorySize = 1,
            FFTSubbands = [2], FFTAverageEnergy = [0], FFTVariance = [1],
            FFTBeatValues = [beat_value 1], EnergyHistory = [[2]]\<rparr>
   \<and> andThen (CreateBeatDetection 1 1) (repeat_update 2 [1, 3])
     = Inr \<lparr>HistoryPosition = 0, FFTSubbandsSize = 1, EnergyHistorySize = 1,
            FFTSubbands = [2], FFTAverageEnergy = [2], FFTVariance = [3 / 2],
            FFTBeatValues = [beat_value (3 / 2)], EnergyHistory = [[2]]\<rparr>
   \<and> variance_around 2 (subband_bins [1, 3] 1 0) = 1"
proof -
  let ?st0 = "\<lparr>HistoryPosition = 0, FFTSubbandsSize = 1, EnergyHistorySize = 1,
          FFTSubbands = [0], FFTAverageEnergy = [0], FFTVariance = [0], FFTBeatValues = [0],
          EnergyHistory = [[0::real]]\<rparr>"
  have wf: "well_formed ?st0"
    by (simp add: well_formed_def sized_def)
  have bins: "subband_bins [1, 3] 1 0 = [1, 3]"
    by (simp add: subband_bins_def Num_def)
  have e: "subband_energy [1, 3] 1 0 = 2"
    by (simp add: subband_energy_def bins Num_def)
  have v: "\<And>old. accumulated_variance [1, 3] 1 old 0 = (old + 2) / 2"
    by (simp add: accumulated_variance_def bins e Num_def)
  have one: "updated_times 1 [1, 3] ?st0
     = \<lparr>HistoryPosition = 0, FFTSubbandsSize = 1, EnergyHistorySize = 1,
            FFTSubbands = [2], FFTAverageEnergy = [0], FFTVariance = [1],
            FFTBeatValues = [beat_value 1], EnergyHistory = [[2]]\<rparr>"
    by (simp add: updated_def e v)
  have two: "updated_times 2 [1, 3] ?st0
     = \<lparr>HistoryPosition = 0, FFTSubbandsSize = 1, EnergyHistorySize = 1,
            FFTSubbands = [2], FFTAverageEnergy = [2], FFTVariance = [3 / 2],
            FFTBeatValues = [beat_value (3 / 2)], EnergyHistory = [[2]]\<rparr>"
    by (simp add: numeral_2_eq_2 updated_def e v)
  have run: "\<And>n. repeat_update n [1, 3] ?st0 = Inr (updated_times n [1, 3] ?st0)"
    using wf by (intro repeat_update_eq) simp_all
  have fresh: "variance_around 2 (subband_bins [1, 3] 1 0) = 1"
    by (simp add: variance_around_def bins)
  show ?thesis
    by (simp only: create_1_1 andThen_def sum.case run one two fresh)
qed

text \<open>
  C2. \<open>FFTSubbands[s]\<close> is the sum of the \<open>floor(len / S)\<close> bins times \<open>S / len\<close>, which
  is their arithmetic mean when \<open>S\<close> divides \<open>len\<close> (\<open>subband_energy_mean\<close>) and not in general.
  Two sub-bands and five bins that are all \<open>1\<close>: each sub-band has the two bins
  \<open>[1, 1]\<close> of mean \<open>1\<close>, and the code stores \<open>2 * (2 / 5) = 4 / 5\<close>.
\<close>

theorem average_of_five_bins:
  "andThen (CreateBeatDetection 2 1) (\<lambda>st. UpdateFFT st [1, 1, 1, 1, 1])
     = Inr \<lparr>HistoryPosition = 0, FFTSubbandsSize = 2, EnergyHistorySize = 1,
            FFTSubbands = [4 / 5, 4 / 5], FFTAverageEnergy = [0, 0],
            FFTVariance = [4 / 125, 4 / 125],
            FFTBeatValues = [beat_value (4 / 125), beat_value (4 / 125)],
            EnergyHistory = [[4 / 5], [4 / 5]]\<rparr>
   \<and> subband_bins [1, 1, 1, 1, 1] 2 0 = [1, 1] \<and> mean [1, 1] = 1
   \<and> subband_bins [1, 1, 1, 1, 1] 2 1 = [1, 1]"
proof -
  let ?M = "[1, 1, 1, 1, 1 :: real]"
  let ?st0 = "\<lparr>HistoryPosition = 0, FFTSubbandsSize = 2, EnergyHistorySize = 1,
          FFTSubbands = [0, 0], FFTAverageEnergy = [0, 0], FFTVariance = [0, 0],
          FFTBeatValues = [0, 0], EnergyHistory = [[0], [0::real]]\<rparr>"
  have wf: "well_formed ?st0"
    by (simp add: well_formed_def sized_def)
  have bins: "subband_bins ?M 2 0 = [1, 1]" "subband_bins ?M 2 1 = [1, 1]"
    by (simp_all add: subband_bins_def Num_def)
  have e: "subband_energy ?M 2 0 = 4 / 5" "subband_energy ?M 2 1 = 4 / 5"
    by (simp_all add: subband_energy_def bins Num_def)
  have v: "accumulated_variance ?M 2 0 0 = 4 / 125" "accumulated_variance ?M 2 0 1 = 4 / 125"
    by (simp_all add: accumulated_variance_def bins e Num_def power2_eq_square)
  have up: "[0..<2] = [0, Suc 0]"
    by (simp add: numeral_2_eq_2)
  have one: "updated ?st0 ?M
     = \<lparr>HistoryPosition = 0, FFTSubbandsSize = 2, EnergyHistorySize = 1,
            FFTSubbands = [4 / 5, 4 / 5], FFTAverageEnergy = [0, 0],
            FFTVariance = [4 / 125, 4 / 125],
            FFTBeatValues = [beat_value (4 / 125), beat_value (4 / 125)],
            EnergyHistory = [[4 / 5], [4 / 5]]\<rparr>"
    by (simp add: updated_def up e v)
  have run: "UpdateFFT ?st0 ?M = Inr (updated ?st0 ?M)"
    using wf by (intro UpdateFFT_eq) simp_all
  have m: "mean [1, 1] = 1" by (simp add: mean_def)
  show ?thesis
    by (simp only: create_2_1 andThen_def sum.case run one bins m)
qed

subsection \<open>Beat detection: sizes and resizing\<close>

text \<open>
  C3, as the code has it. \<open>CreateBeatDetection\<close> with two positive arguments returns a
  well-formed detector of these sizes; with a non-positive sub-band count it keeps the
  constructor's \<open>FFTSubbandsSize = 0\<close>. On a detector with positive sizes and arrays of
  these sizes (\<open>sized\<close>), both resize operations and \<open>UpdateFFT\<close> keep that, and a resize
  with a non-positive argument changes nothing.
\<close>

theorem sizes_stay_positive:
  "(0 < s \<and> 0 < h \<longrightarrow>
      (\<exists>st. CreateBeatDetection s h = Inr st \<and> well_formed st
            \<and> FFTSubbandsSize st = s \<and> EnergyHistorySize st = h))
   \<and> (s \<le> 0 \<longrightarrow> (\<exists>st. CreateBeatDetection s h = Inr st \<and> FFTSubbandsSize st = 0))
   \<and> (sized st0 \<longrightarrow>
        (\<exists>st. UpdateFFTSubbandsSize st0 n = Inr st \<and> sized st
              \<and> 0 < FFTSubbandsSize st \<and> 0 < EnergyHistorySize st \<and> (n \<le> 0 \<longrightarrow> st = st0))
      \<and> (\<exists>st. UpdateEnergyHistorySize st0 n = Inr st \<and> sized st
              \<and> 0 < FFTSubbandsSize st \<and> 0 < EnergyHistorySize st \<and> (n \<le> 0 \<longrightarrow> st = st0))
      \<and> (\<forall>st. UpdateFFT st0 M = Inr st \<longrightarrow>
              sized st \<and> 0 < FFTSubbandsSize st \<and> 0 < EnergyHistorySize st))"
proof (intro conjI impI)
  assume "0 < s \<and> 0 < h"
  then show "\<exists>st. CreateBeatDetection s h = Inr st \<and> well_formed st
            \<and> FFTSubbandsSize st = s \<and> EnergyHistorySize st = h"
    by (simp add: CreateBeatDetection_eq well_formed_def sized_def list_all_iff)
next
  assume "s \<le> 0"
  then show "\<exists>st. CreateBeatDetection s h = Inr st \<and> FFTSubbandsSize st = 0"
    by (simp add: CreateBeatDetection_no_subbands NewBeatDetection_def)
next
  assume sized: "sized st0"
  show "\<exists>st. UpdateFFTSubbandsSize st0 n = Inr st \<and> sized st
              \<and> 0 < FFTSubbandsSize st \<and> 0 < EnergyHistorySize st \<and> (n \<le> 0 \<longrightarrow> st = st0)"
    using UpdateFFTSubbandsSize_sized [OF sized, of n] sized_positive by blast
next
  assume sized: "sized st0"
  show "\<exists>st. UpdateEnergyHistorySize st0 n = Inr st \<and> sized st
              \<and> 0 < FFTSubbandsSize st \<and> 0 < EnergyHistorySize st \<and> (n \<le> 0 \<longrightarrow> st = st0)"
    using UpdateEnergyHistorySize_sized [OF sized, of n] sized_positive by blast
next
  assume sized: "sized st0"
  show "\<forall>st. UpdateFFT st0 M = Inr st \<longrightarrow>
              sized st \<and> 0 < FFTSubbandsSize st \<and> 0 < EnergyHistorySize st"
    using UpdateFFT_keeps_sized [OF sized] sized_positive by blast
qed

text \<open>C3 at \<open>CreateBeatDetection 4 2\<close>, \<open>CreateBeatDetection 0 5\<close> and \<open>played_1_2\<close>.\<close>

theorem sizes_stay_positive_witness:
  "(\<exists>st. CreateBeatDetection 4 2 = Inr st \<and> well_formed st
         \<and> FFTSubbandsSize st = 4 \<and> EnergyHistorySize st = 2)
   \<and> (\<exists>st. CreateBeatDetection 0 5 = Inr st \<and> FFTSubbandsSize st = 0)
   \<and> sized played_1_2
   \<and> (\<exists>st. UpdateFFTSubbandsSize played_1_2 0 = Inr st \<and> sized st
          \<and> 0 < FFTSubbandsSize st \<and> 0 < EnergyHistorySize st \<and> st = played_1_2)
   \<and> (\<exists>st. UpdateEnergyHistorySize played_1_2 0 = Inr st \<and> sized st
          \<and> 0 < FFTSubbandsSize st \<and> 0 < EnergyHistorySize st \<and> st = played_1_2)
   \<and> (\<exists>st. UpdateFFT played_1_2 [1] = Inr st
          \<and> sized st \<and> 0 < FFTSubbandsSize st \<and> 0 < EnergyHistorySize st)"
proof -
  have a: "(0::int) < 4 \<and> (0::int) < 2" by simp
  have b: "(0::int) \<le> 0" by simp
  note t1 = sizes_stay_positive [of 4 2 played_1_2 0 "[1]"]
  note t2 = sizes_stay_positive [of 0 5 played_1_2 0 "[1]"]
  from t1 a have c1: "\<exists>st. CreateBeatDetection 4 2 = Inr st \<and> well_formed st
         \<and> FFTSubbandsSize st = 4 \<and> EnergyHistorySize st = 2" by blast
  from t2 b have c2: "\<exists>st. CreateBeatDetection 0 5 = Inr st \<and> FFTSubbandsSize st = 0"
    by blast
  have "well_formed played_1_2"
    using sized_played_1_2 by (simp add: well_formed_def) (simp add: played_1_2_def)
  then have run: "UpdateFFT played_1_2 [1] = Inr (updated played_1_2 [1])"
    by (intro UpdateFFT_eq) simp_all
  from t1 sized_played_1_2 b run show ?thesis
    using c1 c2 by blast
qed

text \<open>
  C3 as the claim states it fails: \<open>CreateBeatDetection 0 5\<close> returns a detector whose
  sub-band count is \<open>0\<close>.
\<close>

theorem create_without_subbands_counterexample:
  "CreateBeatDetection 0 5 = Inr (NewBeatDetection\<lparr>EnergyHistorySize := 5\<rparr>)
   \<and> FFTSubbandsSize (NewBeatDetection\<lparr>EnergyHistorySize := 5\<rparr>) = 0"
  by (simp add: CreateBeatDetection_no_subbands NewBeatDetection_def)

text \<open>
  C4, as the code has it. A successful resize stores the new size and does not clear the
  history: \<open>UpdateEnergyHistorySize\<close> keeps of every buffer the entries below the new
  size and fills up with zeros; \<open>UpdateFFTSubbandsSize\<close> keeps the buffers of the
  sub-bands below the new count and gives every new sub-band a buffer of zeros.
\<close>

theorem resize_keeps_history:
  assumes "sized st" "0 < n"
  shows "(\<exists>st'. UpdateEnergyHistorySize st n = Inr st'
            \<and> EnergyHistorySize st' = n \<and> FFTSubbandsSize st' = FFTSubbandsSize st
            \<and> EnergyHistory st'
                = map (\<lambda>row. take (nat n) row @ replicate (nat n - nat (EnergyHistorySize st)) 0)
                    (EnergyHistory st))
       \<and> (\<exists>st'. UpdateFFTSubbandsSize st n = Inr st'
            \<and> FFTSubbandsSize st' = n \<and> EnergyHistorySize st' = EnergyHistorySize st
            \<and> EnergyHistory st'
                = take (nat n) (EnergyHistory st)
                  @ replicate (nat n - nat (FFTSubbandsSize st))
                      (replicate (nat (EnergyHistorySize st)) 0))"
proof -
  let ?S = "FFTSubbandsSize st"
  let ?H = "EnergyHistorySize st"
  have H: "0 < ?H" and l: "length (EnergyHistory st) = nat ?S"
    and rows: "\<And>row. row \<in> set (EnergyHistory st) \<Longrightarrow> length row = nat ?H"
    using assms(1) by (simp_all add: sized_def list_all_iff)
  have m1: "map (\<lambda>row. SetNum row n 0) (EnergyHistory st)
      = map (\<lambda>row. take (nat n) row @ replicate (nat n - nat ?H) 0) (EnergyHistory st)"
    by (rule map_cong) (simp_all add: SetNum_def rows)
  have kept: "map (\<lambda>row. SetNum row ?H 0) (take (nat n) (EnergyHistory st))
      = take (nat n) (EnergyHistory st)"
  proof (rule map_idI)
    fix row assume "row \<in> set (take (nat n) (EnergyHistory st))"
    then have "row \<in> set (EnergyHistory st)" by (rule in_set_takeD)
    then show "SetNum row ?H 0 = row" by (simp add: SetNum_same rows)
  qed
  have m2: "map (\<lambda>row. SetNum row ?H 0) (SetNum (EnergyHistory st) n [])
      = take (nat n) (EnergyHistory st) @ replicate (nat n - nat ?S) (replicate (nat ?H) 0)"
    by (simp add: SetNum_def [of "EnergyHistory st"] kept l) (simp add: SetNum_def)
  show ?thesis
    using assms(2) H
    by (simp add: UpdateEnergyHistorySize_eq [OF l assms(2)] UpdateFFTSubbandsSize_eq m1 m2)
qed

text \<open>C4 at \<open>played_1_2\<close>, resized to three.\<close>

theorem resize_keeps_history_witness:
  "sized played_1_2 \<and> (0::int) < 3
   \<and> (\<exists>st'. UpdateEnergyHistorySize played_1_2 3 = Inr st'
          \<and> EnergyHistorySize st' = 3
          \<and> EnergyHistory st' = [[1, 0, 0]])
   \<and> (\<exists>st'. UpdateFFTSubbandsSize played_1_2 3 = Inr st'
          \<and> FFTSubbandsSize st' = 3
          \<and> EnergyHistory st' = [[1, 0], [0, 0], [0, 0]])"
proof -
  have n: "(0::int) < 3" by simp
  have r: "replicate 2 (0::real) = [0, 0]" "replicate 2 [0, 0::real] = [[0, 0], [0, 0]]"
    by (simp_all add: numeral_2_eq_2)
  show ?thesis
    using resize_keeps_history [OF sized_played_1_2 n] sized_played_1_2
    by (simp add: played_1_2_def r, blast)
qed

text \<open>
  C4 as the claim states it fails: on \<open>played_1_2\<close>, resizing the history to two entries
  succeeds and leaves the entry \<open>1\<close> in the buffer.
\<close>

theorem resize_keeps_history_counterexample:
  "0 < FFTSubbandsSize played_1_2 \<and> 0 < EnergyHistorySize played_1_2
   \<and> map_sum id EnergyHistory (UpdateEnergyHistorySize played_1_2 2) = Inr [[1, 0]]"
proof -
  have l: "length (EnergyHistory played_1_2) = nat (FFTSubbandsSize played_1_2)"
    by (simp add: played_1_2_def)
  show ?thesis
    using UpdateEnergyHistorySize_eq [OF l, of 2]
    by (simp add: played_1_2_def SetNum_def)
qed

text \<open>
  Neither resize assigns the cursor. After a resize of the history to less than the
  cursor, the next \<open>UpdateFFT\<close> writes out of range: a detector of one sub-band and three
  history entries, two calls, the history resized to one entry, one more call.
\<close>

lemma shrink_below_cursor:
  "andThen (CreateBeatDetection 1 3)
     (\<lambda>st. andThen (repeat_update 2 [1] st)
       (\<lambda>st. andThen (UpdateEnergyHistorySize st 1)
         (\<lambda>st. UpdateFFT st [1])))
   = Inl IndexOutOfRange"
proof -
  let ?st0 = "\<lparr>HistoryPosition = 0, FFTSubbandsSize = 1, EnergyHistorySize = 3,
          FFTSubbands = [0], FFTAverageEnergy = [0], FFTVariance = [0], FFTBeatValues = [0],
          EnergyHistory = [[0, 0, 0::real]]\<rparr>"
  let ?st2 = "\<lparr>HistoryPosition = 2, FFTSubbandsSize = 1, EnergyHistorySize = 3,
          FFTSubbands = [1], FFTAverageEnergy = [1 / 3], FFTVariance = [0],
          FFTBeatValues = [beat_value 0], EnergyHistory = [[1, 1, 0::real]]\<rparr>"
  let ?st3 = "\<lparr>HistoryPosition = 2, FFTSubbandsSize = 1, EnergyHistorySize = 1,
          FFTSubbands = [1], FFTAverageEnergy = [1 / 3], FFTVariance = [0],
          FFTBeatValues = [beat_value 0], EnergyHistory = [[1::real]]\<rparr>"
  have c: "CreateBeatDetection 1 3 = Inr ?st0"
    using CreateBeatDetection_eq [of 1 3] by (simp add: numeral_3_eq_3)
  have wf: "well_formed ?st0"
    by (simp add: well_formed_def sized_def)
  have bins: "subband_bins [1] 1 0 = [1]"
    by (simp add: subband_bins_def Num_def)
  have e: "subband_energy [1] 1 0 = 1"
    by (simp add: subband_energy_def bins Num_def)
  have v: "accumulated_variance [1] 1 0 0 = 0"
    by (simp add: accumulated_variance_def bins e Num_def)
  have two: "updated_times 2 [1] ?st0 = ?st2"
    by (simp add: numeral_2_eq_2 updated_def e v)
  have run: "repeat_update 2 [1] ?st0 = Inr ?st2"
    using repeat_update_eq [OF wf, of "[1]" 2] two by simp
  have l: "length (EnergyHistory ?st2) = nat (FFTSubbandsSize ?st2)"
    by simp
  have shrink: "UpdateEnergyHistorySize ?st2 1 = Inr ?st3"
    using UpdateEnergyHistorySize_eq [OF l, of 1] by (simp add: SetNum_def)
  have sized: "sized ?st3"
    by (simp add: sized_def)
  have last: "UpdateFFT ?st3 [1] = Inl IndexOutOfRange"
    using UpdateFFT_sized [OF sized, of "[1]"] by simp
  show ?thesis
    by (simp only: c andThen_def sum.case run shrink last)
qed

subsection \<open>Reading a frame\<close>

text \<open>
  Outside of the range of \<open>int32\<close> the sample offset wraps around: from frame \<open>2 ^ 30\<close>
  of a stereo buffer the offset is \<open>- 2 ^ 31\<close>, and the copy reads before the buffer.
\<close>

lemma wrapped_sample_offset:
  "to_int32 (2 ^ 30 * 2) = - (2 ^ 31)
   \<and> GetAudioFrameFromSoundWaveByFramesCustom
        (Some \<lparr>NumChannels = 2, PCMNumOfFrames = 3 * 2 ^ 29,
               PCMData = replicate (3 * 2 ^ 30) 0\<rparr>) (2 ^ 30) (2 ^ 30 + 1) []
      = Inl IndexOutOfRange"
  by (simp add: GetAudioFrameFromSoundWaveByFramesCustom_def to_uint32_def to_int32_def
      Num_def copy_run_def)

text \<open>
  C5, as the code has it. For a valid frame range on a consistent buffer, with a sample
  offset \<open>start * numChannels\<close> in the range of \<open>int32\<close>, the function returns \<open>true\<close>
  and the \<open>end - start\<close> samples from that offset on: the length is not multiplied by
  the number of channels.
\<close>

theorem frame_read_length:
  assumes range: "0 \<le> StartFrame" "StartFrame < EndFrame" "EndFrame \<le> PCMNumOfFrames wave"
    and int32: "EndFrame < 2 ^ 31" "StartFrame * NumChannels wave < 2 ^ 31"
    and buffer: "1 \<le> NumChannels wave"
      "Num (PCMData wave) = PCMNumOfFrames wave * NumChannels wave"
      "Num (PCMData wave) < 2 ^ 32"
  shows "GetAudioFrameFromSoundWaveByFramesCustom (Some wave) StartFrame EndFrame AudioFrame
         = Inr (True, take (nat (EndFrame - StartFrame))
                       (drop (nat (StartFrame * NumChannels wave)) (PCMData wave)))
       \<and> length (take (nat (EndFrame - StartFrame))
                       (drop (nat (StartFrame * NumChannels wave)) (PCMData wave)))
         = nat (EndFrame - StartFrame)"
proof -
  let ?C = "NumChannels wave"
  let ?n = "Num (PCMData wave)"
  have e: "to_uint32 EndFrame = EndFrame"
    using range int32 by (simp add: to_uint32_def)
  have d: "to_uint32 (EndFrame - StartFrame) = EndFrame - StartFrame"
    using range int32 by (simp add: to_uint32_def)
  have "EndFrame * 1 \<le> EndFrame * ?C"
    using range buffer(1) by (intro mult_left_mono) auto
  moreover have "EndFrame * ?C \<le> PCMNumOfFrames wave * ?C"
    using range buffer(1) by (intro mult_right_mono) auto
  ultimately have big: "EndFrame \<le> ?n" "EndFrame * ?C \<le> ?n"
    using buffer(2) by simp_all
  have n: "to_uint32 ?n = ?n"
    using buffer(3) by (simp add: to_uint32_def Num_def)
  have ne: "PCMData wave \<noteq> []"
    using big(1) range by (auto simp: Num_def)
  have off: "0 \<le> StartFrame * ?C" using range buffer(1) by simp
  have o: "to_int32 (StartFrame * ?C) = StartFrame * ?C"
    using off int32(2) by (simp add: to_int32_def)
  have "StartFrame * ?C + (EndFrame - StartFrame) * 1 \<le> StartFrame * ?C + (EndFrame - StartFrame) * ?C"
    using range buffer(1) by (intro add_left_mono mult_left_mono) auto
  also have "\<dots> = EndFrame * ?C" by (simp add: algebra_simps)
  finally have fit: "StartFrame * ?C + (EndFrame - StartFrame) \<le> ?n"
    using big(2) by simp
  have copy: "copy_run (PCMData wave) (StartFrame * ?C) (EndFrame - StartFrame)
     = Inr (take (nat (EndFrame - StartFrame)) (drop (nat (StartFrame * ?C)) (PCMData wave)))"
    using off fit range by (simp add: copy_run_def)
  have result: "GetAudioFrameFromSoundWaveByFramesCustom (Some wave) StartFrame EndFrame AudioFrame
         = Inr (True, take (nat (EndFrame - StartFrame))
                       (drop (nat (StartFrame * NumChannels wave)) (PCMData wave)))"
    using range big ne
    by (simp add: GetAudioFrameFromSoundWaveByFramesCustom_def e d n o copy Let_def)
  have "nat (EndFrame - StartFrame) + nat (StartFrame * ?C) \<le> length (PCMData wave)"
    using fit off range by (simp add: Num_def nat_add_distrib [symmetric] nat_le_iff)
  then have "length (take (nat (EndFrame - StartFrame))
                       (drop (nat (StartFrame * NumChannels wave)) (PCMData wave)))
         = nat (EndFrame - StartFrame)"
    by simp
  with result show ?thesis by simp
qed

text \<open>C5 on three stereo frames, for the frames 1 to 3.\<close>

theorem frame_read_length_witness:
  "GetAudioFrameFromSoundWaveByFramesCustom
       (Some \<lparr>NumChannels = 2, PCMNumOfFrames = 3, PCMData = [1, 2, 3, 4, 5, 6]\<rparr>) 1 3 []
     = Inr (True, [3, 4])
   \<and> length [3, 4 :: real] = nat (3 - 1)"
  using frame_read_length
    [of 1 3 "\<lparr>NumChannels = 2, PCMNumOfFrames = 3, PCMData = [1, 2, 3, 4, 5, 6]\<rparr>" "[]"]
  by (simp add: Num_def)

text \<open>
  C5 as the claim states it fails: of two stereo frames the function returns two samples,
  not four.
\<close>

theorem stereo_frame_read_counterexample:
  "GetAudioFrameFromSoundWaveByFramesCustom
       (Some \<lparr>NumChannels = 2, PCMNumOfFrames = 2, PCMData = [1, 2, 3, 4]\<rparr>) 0 2 []
     = Inr (True, [1, 2])
   \<and> int (length [1, 2 :: real]) \<noteq> (2 - 0) * 2"
  by (simp add: GetAudioFrameFromSoundWaveByFramesCustom_def to_uint32_def to_int32_def
      Num_def copy_run_def)

subsection \<open>Beat detection: the steady state\<close>

text \<open>
  C6, as the code has it. With four sub-bands and two history entries, after three or
  more calls with the same non-empty spectrum the average energy of every sub-band is its
  current energy \<open>e\<close>, and \<open>IsBeat(s)\<close> is \<open>e > e * FFTBeatValues[s]\<close>: false when
  \<open>e \<ge> 0\<close> and the coefficient is at least \<open>1\<close>, true when \<open>e > 0\<close> and the coefficient
  is below \<open>1\<close>.
\<close>

theorem steady_state_beats:
  assumes "well_formed st" "FFTSubbandsSize st = 4" "EnergyHistorySize st = 2"
    and "M \<noteq> []" "3 \<le> n" "0 \<le> s" "s < 4"
  shows "\<exists>st'. repeat_update n M st = Inr st'
           \<and> FFTSubbands st' ! nat s = subband_energy M 4 s
           \<and> FFTAverageEnergy st' ! nat s = subband_energy M 4 s
           \<and> IsBeat st' s
               = Inr (subband_energy M 4 s > subband_energy M 4 s * FFTBeatValues st' ! nat s)
           \<and> (0 \<le> subband_energy M 4 s \<and> 1 \<le> FFTBeatValues st' ! nat s
                \<longrightarrow> IsBeat st' s = Inr False)
           \<and> (0 < subband_energy M 4 s \<and> FFTBeatValues st' ! nat s < 1
                \<longrightarrow> IsBeat st' s = Inr True)"
proof -
  let ?st = "updated_times n M st"
  let ?e = "subband_energy M 4 s"
  let ?b = "FFTBeatValues ?st ! nat s"
  have s': "s < FFTSubbandsSize st" using assms(2,7) by simp
  note ss = steady_state [OF assms(1,3,4,5,6) s', unfolded assms(2)]
  have S: "FFTSubbandsSize ?st = 4" using assms(2) by simp
  have len: "length (FFTSubbands ?st) = nat (FFTSubbandsSize ?st)"
    "length (FFTAverageEnergy ?st) = nat (FFTSubbandsSize ?st)"
    "length (FFTBeatValues ?st) = nat (FFTSubbandsSize ?st)"
    using ss(2) by (simp_all add: well_formed_def sized_def)
  have beat: "IsBeat ?st s = Inr (?e > ?e * ?b)"
    using IsBeat_in_range [of s ?st, OF _ _ len] assms(6,7) S ss(3,4) by simp
  have no: "0 \<le> ?e \<and> 1 \<le> ?b \<longrightarrow> IsBeat ?st s = Inr False"
  proof
    assume "0 \<le> ?e \<and> 1 \<le> ?b"
    then have "?e * 1 \<le> ?e * ?b" by (intro mult_left_mono) simp_all
    then show "IsBeat ?st s = Inr False" using beat by simp
  qed
  have yes: "0 < ?e \<and> ?b < 1 \<longrightarrow> IsBeat ?st s = Inr True"
  proof
    assume "0 < ?e \<and> ?b < 1"
    then have "?e * ?b < ?e * 1" by (intro mult_strict_left_mono) simp_all
    then show "IsBeat ?st s = Inr True" using beat by simp
  qed
  show ?thesis
    using ss(1,3,4) beat no yes by blast
qed

text \<open>C6 on the fresh detector with the spectrum \<open>[1, 1, 1, 1]\<close>, three times.\<close>

theorem steady_state_beats_witness:
  "well_formed fresh_4_2 \<and> FFTSubbandsSize fresh_4_2 = 4 \<and> EnergyHistorySize fresh_4_2 = 2
   \<and> (\<exists>st'. repeat_update 3 [1, 1, 1, 1] fresh_4_2 = Inr st'
          \<and> FFTSubbands st' ! 0 = 1 \<and> FFTAverageEnergy st' ! 0 = 1
          \<and> FFTBeatValues st' ! 0 = 1.15142857
          \<and> IsBeat st' 0 = Inr False)"
proof -
  have sizes: "FFTSubbandsSize fresh_4_2 = 4" "EnergyHistorySize fresh_4_2 = 2"
    by (simp_all add: fresh_4_2_def)
  have e: "subband_energy [1, 1, 1, 1] 4 0 = 1"
    by (simp add: subband_energy_def subband_bins_def Num_def)
  obtain st' where st': "repeat_update 3 [1, 1, 1, 1] fresh_4_2 = Inr st'"
      "FFTSubbands st' ! nat 0 = subband_energy [1, 1, 1, 1] 4 0"
      "FFTAverageEnergy st' ! nat 0 = subband_energy [1, 1, 1, 1] 4 0"
      "0 \<le> subband_energy [1, 1, 1, 1] 4 0 \<and> 1 \<le> FFTBeatValues st' ! nat 0
         \<longrightarrow> IsBeat st' 0 = Inr False"
    using steady_state_beats [OF well_formed_fresh_4_2 sizes, of "[1, 1, 1, 1]" 3 0]
    by auto
  have b: "FFTBeatValues st' ! 0 = 1.15142857"
    using st'(1) unfolding three_flat_updates by (auto simp: beat_value_def)
  have "IsBeat st' 0 = Inr False"
    using st'(4) b e by simp
  then show ?thesis
    using well_formed_fresh_4_2 sizes st'(1,2,3) b e by auto
qed

text \<open>
  C6 as the claim states it fails: with the spectrum \<open>loud_bin\<close>, fed to the fresh
  detector of four sub-bands and two history entries, sub-band 0 has a beat after every
  number of calls, so no number of calls makes \<open>IsBeat\<close> false for all sub-bands.
\<close>

theorem loud_bin_keeps_beating_counterexample:
  "\<not> (\<exists>N. \<forall>n\<ge>N. \<exists>st.
        andThen (CreateBeatDetection 4 2) (repeat_update n [0, 100, 0, 0, 0, 0, 0, 0]) = Inr st
        \<and> (\<forall>s\<in>{0..<4}. IsBeat st s = Inr False))"
proof
  assume "\<exists>N. \<forall>n\<ge>N. \<exists>st.
        andThen (CreateBeatDetection 4 2) (repeat_update n [0, 100, 0, 0, 0, 0, 0, 0]) = Inr st
        \<and> (\<forall>s\<in>{0..<4}. IsBeat st s = Inr False)"
  then obtain N where N: "\<forall>n\<ge>N. \<exists>st.
        andThen (CreateBeatDetection 4 2) (repeat_update n [0, 100, 0, 0, 0, 0, 0, 0]) = Inr st
        \<and> (\<forall>s\<in>{0..<4}. IsBeat st s = Inr False)" ..
  then obtain st where st:
      "andThen (CreateBeatDetection 4 2) (repeat_update (Suc N) [0, 100, 0, 0, 0, 0, 0, 0]) = Inr st"
      "\<forall>s\<in>{0..<4}. IsBeat st s = Inr False"
    by (meson le_SucI order_refl)
  have "repeat_update (Suc N) loud_bin fresh_4_2 = Inr st"
    using st(1) by (simp only: create_4_2 andThen_def sum.case loud_bin_def)
  then have "IsBeat st 0 = Inr True"
    using loud_always_beat [of N] by simp
  moreover have "IsBeat st 0 = Inr False"
    using st(2) by simp
  ultimately show False by simp
qed

subsection \<open>Time domain features\<close>

text \<open>
  C7, as the code has it. None of the three functions looks at the length of the frame
  before it computes, and none has a way to signal an error: on the empty frame
  \<open>GetPeakEnergy\<close> returns its start value \<open>-10000\<close>, \<open>GetZeroCrossingRate\<close> returns
  \<open>0\<close>, and \<open>GetRootMeanSquare\<close> divides \<open>0\<close> by \<open>0\<close>, a floating point division by
  zero (a NaN), which is no failure of the function either.
\<close>

theorem empty_frame_results:
  "GetPeakEnergy [] = - 10000 \<and> GetZeroCrossingRate [] = 0
   \<and> GetRootMeanSquare [] = Inl FloatNotFinite"
  by (simp add: GetPeakEnergy_def GetZeroCrossingRate_def GetRootMeanSquare_def
      fdiv_def Num_def round32_0 zero_crossing_loop.simps)

text \<open>
  C7 as the claim states it fails: the peak energy of the empty frame is an ordinary
  number, and so is its zero crossing rate.
\<close>

theorem empty_frame_no_error_counterexample:
  "GetPeakEnergy [] = - 10000 \<and> GetZeroCrossingRate [] = 0"
  by (simp add: GetPeakEnergy_def GetZeroCrossingRate_def zero_crossing_loop.simps)

text \<open>
  C8, as the code has it. On a frame of \<open>N > 0\<close> samples that all equal \<open>c\<close>, the peak
  energy is \<open>\<bar>c\<bar>\<close> and the zero crossing rate is \<open>0\<close>. The root mean square is \<open>\<bar>c\<bar>\<close>
  when no step of its computation rounds: when \<open>\<bar>c\<bar>\<close>, \<open>N\<close> and the sums \<open>k * c\<^sup>2\<close> for
  \<open>k \<le> N\<close> are binary32 numbers.
\<close>

theorem constant_frame_features:
  assumes "0 < N"
  shows "GetPeakEnergy (replicate N c) = \<bar>c\<bar>
       \<and> GetZeroCrossingRate (replicate N c) = 0
       \<and> (round32 \<bar>c\<bar> = Inr \<bar>c\<bar> \<and> round32 (real N) = Inr (real N)
            \<and> (\<forall>k \<le> N. round32 (real k * c ^ 2) = Inr (real k * c ^ 2))
          \<longrightarrow> GetRootMeanSquare (replicate N c) = Inr \<bar>c\<bar>)"
proof -
  have peak: "GetPeakEnergy (replicate N c) = \<bar>c\<bar>"
    using assms by (auto simp: GetPeakEnergy_def peak_loop_replicate)
  have zcr: "GetZeroCrossingRate (replicate N c) = 0"
    by (simp add: GetZeroCrossingRate_def zero_crossing_loop_replicate)
  have rms: "round32 \<bar>c\<bar> = Inr \<bar>c\<bar> \<and> round32 (real N) = Inr (real N)
            \<and> (\<forall>k \<le> N. round32 (real k * c ^ 2) = Inr (real k * c ^ 2))
          \<longrightarrow> GetRootMeanSquare (replicate N c) = Inr \<bar>c\<bar>"
    using root_mean_square_exact [OF assms, of c] by blast
  from peak zcr rms show ?thesis by blast
qed

text \<open>C8 on three samples of \<open>-2\<close>: the sums are \<open>4\<close>, \<open>8\<close> and \<open>12\<close>.\<close>

theorem constant_frame_features_witness:
  "GetPeakEnergy [- 2, - 2, - 2] = 2
   \<and> GetZeroCrossingRate [- 2, - 2, - 2] = 0
   \<and> GetRootMeanSquare [- 2, - 2, - 2] = Inr 2"
proof -
  have r: "replicate 3 (- 2 :: real) = [- 2, - 2, - 2]"
    by (simp add: numeral_3_eq_3)
  have n: "(0::nat) < 3" by simp
  have c: "round32 \<bar>- 2\<bar> = Inr \<bar>- 2\<bar>"
    using round32_int [of 2] by simp
  have three: "round32 (real 3) = Inr (real 3)"
    using round32_int [of 3] by simp
  have sums: "\<forall>k \<le> 3. round32 (real k * (- 2) ^ 2) = Inr (real k * (- 2) ^ 2)"
  proof (intro allI impI)
    fix k :: nat assume "k \<le> 3"
    then have "\<bar>int (4 * k)\<bar> < 2 ^ 24" by simp
    then have "round32 (of_int (int (4 * k))) = Inr (of_int (int (4 * k)))"
      by (rule round32_int)
    moreover have "real k * (- 2) ^ 2 = of_int (int (4 * k))" by simp
    ultimately show "round32 (real k * (- 2) ^ 2) = Inr (real k * (- 2) ^ 2)"
      by (simp only:)
  qed
  show ?thesis
    using constant_frame_features [OF n, of "- 2"] c three sums by (simp add: r)
qed

text \<open>
  C8 as the claim states it fails. Seven samples of \<open>0.3f\<close> have the root mean square
  \<open>10066329 / 2 ^ 25\<close>, the float below \<open>0.3f = 10066330 / 2 ^ 25\<close>; one sample of
  \<open>2 ^ 64\<close> has an infinite one, its square overflows; one sample of \<open>2 ^ (-100)\<close> has
  the root mean square \<open>0\<close>, its square underflows. The three samples are binary32
  numbers.
\<close>

theorem root_mean_square_rounds_counterexample:
  "round32 (5033165 / 2 ^ 24) = Inr (5033165 / 2 ^ 24)
   \<and> GetRootMeanSquare (replicate 7 (5033165 / 2 ^ 24)) = Inr (10066329 / 2 ^ 25)
   \<and> (10066329 / 2 ^ 25 :: real) \<noteq> \<bar>5033165 / 2 ^ 24\<bar>
   \<and> round32 (2 ^ 64) = Inr (2 ^ 64)
   \<and> GetRootMeanSquare [2 ^ 64] = Inl FloatNotFinite
   \<and> round32 (1 / 2 ^ 100) = Inr (1 / 2 ^ 100)
   \<and> GetRootMeanSquare [1 / 2 ^ 100] = Inr 0"
proof -
  have a: "round32 (5033165 / 2 ^ 24) = Inr (5033165 / 2 ^ 24)"
    using round32_exact [of "5033165 / 2 ^ 24" 5033165 125] by simp
  have b: "(10066329 / 2 ^ 25 :: real) \<noteq> \<bar>5033165 / 2 ^ 24\<bar>"
    by simp
  have c: "round32 (2 ^ 64) = Inr (2 ^ 64)"
    using round32_exact [of "2 ^ 64" 1 213] by simp
  have "((2::real) ^ 64) ^ 2 = 2 ^ 128" by simp
  then have "round32 (((2::real) ^ 64) ^ 2) = Inl FloatNotFinite"
    using round32_overflow [of 128] by simp
  then have d: "GetRootMeanSquare [2 ^ 64] = Inl FloatNotFinite"
    by (rule root_mean_square_overflow)
  have e: "round32 (1 / 2 ^ 100) = Inr (1 / 2 ^ 100)"
    using round32_exact [of "1 / 2 ^ 100" 1 49] by simp
  have "round32 ((1 / 2 ^ 100) ^ 2) = Inr 0"
    by (rule round32_underflow) (simp_all add: power_divide)
  then have f: "GetRootMeanSquare [1 / 2 ^ 100] = Inr 0"
    by (rule root_mean_square_underflow)
  from a seven_samples b c d e f show ?thesis by blast
qed

subsection \<open>Beat detection: queries\<close>

text \<open>
  C9. On a detector whose three arrays have \<open>FFTSubbandsSize\<close> elements, \<open>IsBeatRange\<close>
  returns false when \<open>Low\<close> or \<open>High\<close> is outside \<open>[0, S)\<close> or \<open>High \<le> Low\<close>, and
  otherwise whether more than \<open>Threshold\<close> sub-bands of \<open>Low, ..., High\<close> have a beat;
  \<open>IsSnare\<close> and \<open>IsHiHat\<close> are \<open>IsBeatRange\<close> on \<open>[1, S/3]\<close> and \<open>[S/2, S-1]\<close> with a
  third of the width as the threshold (C++ integer division).
\<close>

theorem beat_range_counts:
  assumes "length (FFTSubbands st) = nat (FFTSubbandsSize st)"
    and "length (FFTAverageEnergy st) = nat (FFTSubbandsSize st)"
    and "length (FFTBeatValues st) = nat (FFTSubbandsSize st)"
  shows "IsBeatRange st Low High Threshold =
           Inr (0 \<le> Low \<and> Low < FFTSubbandsSize st \<and> 0 \<le> High \<and> High < FFTSubbandsSize st
                \<and> Low < High
                \<and> Threshold < int (length (filter (\<lambda>s. IsBeat st s = Inr True) [Low..High])))
       \<and> IsSnare st
           = IsBeatRange st 1 (tdiv (FFTSubbandsSize st) 3)
               (tdiv (tdiv (FFTSubbandsSize st) 3 - 1) 3)
       \<and> IsHiHat st
           = IsBeatRange st (tdiv (FFTSubbandsSize st) 2) (FFTSubbandsSize st - 1)
               (tdiv (FFTSubbandsSize st - 1 - tdiv (FFTSubbandsSize st) 2) 3)"
  using IsBeatRange_eq [OF assms, of Low High Threshold]
  by (simp add: IsSnare_def IsHiHat_def Let_def)

text \<open>C9 on \<open>two_beats\<close>.\<close>

theorem beat_range_counts_witness:
  "IsBeatRange two_beats 0 3 1 = Inr True
   \<and> IsBeatRange two_beats 0 3 2 = Inr False
   \<and> IsBeatRange two_beats 2 2 0 = Inr False
   \<and> IsSnare two_beats = IsBeatRange two_beats 1 1 0
   \<and> IsHiHat two_beats = IsBeatRange two_beats 2 3 0"
proof -
  have len: "length (FFTSubbands two_beats) = nat (FFTSubbandsSize two_beats)"
    "length (FFTAverageEnergy two_beats) = nat (FFTSubbandsSize two_beats)"
    "length (FFTBeatValues two_beats) = nat (FFTSubbandsSize two_beats)"
    by (simp_all add: two_beats_def)
  have beats: "IsBeat two_beats 0 = Inr True" "IsBeat two_beats 1 = Inr False"
    "IsBeat two_beats 2 = Inr True" "IsBeat two_beats 3 = Inr False"
    by (simp_all add: IsBeat_def two_beats_def get_elem_def Num_def)
  have up: "[0..3] = [0, 1, 2, 3 :: int]" "[2..2] = [2 :: int]"
    by (simp_all add: upto_rec1 [of 0] upto_rec1 [of 1] upto_rec1 [of 2] upto_rec1 [of 3])
  have S: "FFTSubbandsSize two_beats = 4" by (simp add: two_beats_def)
  have t: "tdiv 4 3 = 1" "tdiv 4 2 = 2" "tdiv 0 3 = 0" "tdiv 1 3 = 0"
    by (simp_all add: tdiv_def)
  show ?thesis
    using beat_range_counts [OF len, of 0 3 1] beat_range_counts [OF len, of 0 3 2]
      beat_range_counts [OF len, of 2 2 0]
    by (simp add: S up beats t)
qed

text \<open>
  C10. \<open>IsBeat\<close> tests its argument against \<open>FFTSubbandsSize\<close> only; with a negative
  sub-band it indexes the three arrays below zero. On the detector of
  \<open>CreateBeatDetection 4 2\<close>, \<open>IsBeat(-1)\<close> is a read out of range.
\<close>

theorem negative_subband_read:
  "andThen (CreateBeatDetection 4 2) (\<lambda>st. IsBeat st (- 1)) = Inl IndexOutOfRange"
  by (simp add: create_4_2 andThen_def IsBeat_negative fresh_4_2_def)

end
